theory Spec2Isabelle
  imports Main "HOL-Library.Word"
begin

section \<open>Shared vocabulary\<close>

text \<open>
  Values thrown by the code. \<open>new ORPCError('PAYLOAD_TOO_LARGE')\<close> is
  \<open>ORPCError ''PAYLOAD_TOO_LARGE''\<close>; any other thrown value (a rejected promise of
  a collaborator, a defect) is \<open>Error\<close> with its message.
\<close>

datatype error = ORPCError string | Error string

abbreviation PAYLOAD_TOO_LARGE :: error where
  "PAYLOAD_TOO_LARGE \<equiv> ORPCError ''PAYLOAD_TOO_LARGE''"

text \<open>
  The value of \<open>Number(header)\<close>: not-a-number (an absent or unparsable header in
  Node, where \<open>Number(undefined)\<close> is NaN) or a finite integer. A comparison with NaN
  is false, as in JavaScript. A JavaScript number holds every integer up to \<open>2^53\<close>
  in size exactly; beyond that a declared length is rounded when it is read.
\<close>

datatype js_number = NaN | Num int

fun js_gt :: "js_number \<Rightarrow> int \<Rightarrow> bool" where
  "js_gt NaN m = False"
| "js_gt (Num n) m = (n > m)"

type_synonym byte = "8 word"
type_synonym chunk = "byte list"

section \<open>The interceptor chain (\<open>intercept\<close> of @orpc/shared)\<close>

text \<open>
  An interceptor receives the options and a \<open>next\<close> callback; \<open>next()\<close> is \<open>next\<close>
  applied to the options it received, \<open>next(o')\<close> replaces them. The result type \<open>'r\<close> is
  whatever the chain computes (a promise's outcome, with its effects where they matter).
\<close>

type_synonym ('o, 'r) interceptor = "'o \<Rightarrow> ('o \<Rightarrow> 'r) \<Rightarrow> 'r"

text \<open>
  Modelled from the spec: \<open>intercept\<close> lives in packages/shared/src/interceptor.ts, which
  is not among the sources. Section 4.1: each interceptor, in list order, is called with
  a \<open>next\<close> callback that invokes the remainder of the chain (the interceptors after it,
  then the terminal function).
\<close>

fun intercept :: "('o, 'r) interceptor list \<Rightarrow> 'o \<Rightarrow> ('o \<Rightarrow> 'r) \<Rightarrow> 'r" where
  "intercept [] options main = main options"
| "intercept (i # is) options main = i options (\<lambda>options'. intercept is options' main)"

text \<open>
  Modelled from the spec: \<open>toArray\<close> lives in packages/shared/src/array.ts, which is not
  among the sources. The constructors use it to "make sure the interceptors are an
  array, even when none was given": \<open>undefined\<close> becomes the empty array.
\<close>

fun toArray :: "'a list option \<Rightarrow> 'a list" where
  "toArray None = []"
| "toArray (Some xs) = xs"

section \<open>Middleware results (packages/server/src/middleware.ts)\<close>

type_synonym 'v Context = "string \<rightharpoonup> 'v"

record ('out, 'v) MiddlewareResult =
  mr_output :: 'out
  mr_context :: "'v Context"

definition middlewareOutputFn :: "'out \<Rightarrow> ('out, 'v) MiddlewareResult" where
  "middlewareOutputFn out = \<lparr>mr_output = out, mr_context = Map.empty\<rparr>"

text \<open>
  Modelled from the spec: the merge of contexts is not among the sources. Section 4.2:
  new context = merge(incoming, additional), a shallow merge in which the later keys
  override the earlier ones.
\<close>

definition mergeContext :: "'v Context \<Rightarrow> 'v Context \<Rightarrow> 'v Context" where
  "mergeContext incoming additional = incoming ++ additional"

section \<open>The client proxy (packages/client/src/client.ts)\<close>

record createORPCClientOptions =
  path :: "string list option"

text \<open>
  The proxy returned by \<open>createORPCClient\<close> is a function object closed over \<open>link\<close>,
  \<open>options\<close> and the \<open>path\<close> computed from them; the record holds these three. The
  link is its \<open>call\<close> method.
\<close>

record 'l ORPCClient =
  c_link :: 'l
  c_options :: "createORPCClientOptions option"
  c_path :: "string list"

definition createORPCClient :: "'l \<Rightarrow> createORPCClientOptions option \<Rightarrow> 'l ORPCClient" where
  "createORPCClient link options =
     \<lparr>c_link = link, c_options = options,
      c_path = (case options of None \<Rightarrow> []
                | Some opts \<Rightarrow> (case path opts of None \<Rightarrow> [] | Some p \<Rightarrow> p))\<rparr>"

text \<open>One invocation of \<open>link.call(path, input, options)\<close>, as it is observed.\<close>

datatype ('i, 'co) link_event = LinkCall "string list" 'i 'co

text \<open>
  \<open>procedureClient\<close>, the target of the proxy: calling the client calls it. The second
  argument defaults to the empty object \<open>no_options\<close>; \<open>resolveFriendlyClientOptions\<close>
  (of ./utils, not among the sources) is the parameter \<open>resolve\<close>. The result is what
  \<open>link.call\<close> returns, with the calls made on the link.
\<close>

definition procedureClient ::
  "('fo \<Rightarrow> 'co) \<Rightarrow> 'fo \<Rightarrow> (string list \<Rightarrow> 'i \<Rightarrow> 'co \<Rightarrow> 'res) ORPCClient \<Rightarrow> 'i \<Rightarrow> 'fo option
     \<Rightarrow> 'res \<times> ('i, 'co) link_event list" where
  "procedureClient resolve no_options c input options =
     (let options' = (case options of None \<Rightarrow> no_options | Some opts \<Rightarrow> opts)
      in (c_link c (c_path c) input (resolve options'),
          [LinkCall (c_path c) input (resolve options')]))"

datatype 'sym property_key = StringKey string | SymbolKey 'sym

datatype ('l, 'v) property_value = NestedClient "'l ORPCClient" | TargetProperty 'v

text \<open>
  The \<open>get\<close> trap of the proxy. \<open>Reflect.get(target, key)\<close> is the parameter
  \<open>reflect_get\<close>. The second component is the list of calls made on the link while the
  property is read.
\<close>

definition proxy_get ::
  "('sym \<Rightarrow> 'v) \<Rightarrow> 'l ORPCClient \<Rightarrow> 'sym property_key
     \<Rightarrow> ('l, 'v) property_value \<times> ('i, 'co) link_event list" where
  "proxy_get reflect_get c key =
     (case key of
        SymbolKey s \<Rightarrow> (TargetProperty (reflect_get s), [])
      | StringKey k \<Rightarrow>
          (NestedClient
             (createORPCClient (c_link c)
                (Some ((case c_options c of None \<Rightarrow> \<lparr>path = None\<rparr> | Some opts \<Rightarrow> opts)
                         \<lparr>path := Some (c_path c @ [k])\<rparr>))),
           []))"

text \<open>
  A chain of property reads \<open>client.k1.k2...kn\<close>. It yields the client reached, or
  \<open>None\<close> once a read has returned something that is not a client proxy, with all the
  calls made on the link on the way.
\<close>

fun access ::
  "('sym \<Rightarrow> 'v) \<Rightarrow> 'l ORPCClient \<Rightarrow> 'sym property_key list
     \<Rightarrow> 'l ORPCClient option \<times> ('i, 'co) link_event list" where
  "access reflect_get c [] = (Some c, [])"
| "access reflect_get c (k # ks) =
     (case proxy_get reflect_get c k of
        (NestedClient c', evs) \<Rightarrow>
          (case access reflect_get c' ks of (r, evs') \<Rightarrow> (r, evs @ evs'))
      | (TargetProperty v, evs) \<Rightarrow> (None, evs))"

fun the_string_keys :: "'sym property_key list \<Rightarrow> string list" where
  "the_string_keys [] = []"
| "the_string_keys (StringKey k # ks) = k # the_string_keys ks"
| "the_string_keys (SymbolKey s # ks) = the_string_keys ks"

fun is_StringKey :: "'sym property_key \<Rightarrow> bool" where
  "is_StringKey (StringKey k) = True"
| "is_StringKey (SymbolKey s) = False"

section \<open>Adapter handlers: options, plugins and construction\<close>

text \<open>
  \<open>NodeHttpHandlerOptions\<close> and \<open>FetchHandlerOptions\<close> are the same shape: the optional
  \<open>adapterInterceptors\<close> and the options of the response writer
  (\<open>SendStandardResponseOptions\<close>, \<open>ToFetchResponseOptions\<close>), which the options object
  extends. The \<open>plugins\<close> member is passed beside the record, since a plugin is itself a
  function on the record.
\<close>

record ('i, 'so) HandlerOptions =
  adapterInterceptors :: "'i list option"
  responseOptions :: 'so

text \<open>
  A plugin (\<open>NodeHttpHandlerPlugin\<close>, \<open>FetchHandlerPlugin\<close>) with its optional hook
  \<open>initRuntimeAdapter\<close>. The hook mutates the options object it is given; here it
  returns the new options.
\<close>

record 'opts HandlerPlugin =
  initRuntimeAdapter :: "('opts \<Rightarrow> 'opts) option"

text \<open>
  Modelled from the spec: the constructor of \<open>CompositeStandardHandlerPlugin\<close>
  (adapters/standard/plugin.ts) is not among the sources. The composite "manages the
  plugins it is given" and its hooks "call all registered plugins in order": the stored
  list is the list given, empty when none is given.
\<close>

definition CompositeHandlerPlugin_new :: "'p list option \<Rightarrow> 'p list" where
  "CompositeHandlerPlugin_new plugins = (case plugins of None \<Rightarrow> [] | Some ps \<Rightarrow> ps)"

text \<open>
  \<open>CompositeNodeHttpHandlerPlugin.initRuntimeAdapter\<close> and
  \<open>CompositeFetchHandlerPlugin.initRuntimeAdapter\<close>: the loop over \<open>this.plugins\<close>,
  calling the hook where the plugin has one.
\<close>

fun CompositeHandlerPlugin_initRuntimeAdapter ::
  "'opts HandlerPlugin list \<Rightarrow> 'opts \<Rightarrow> 'opts" where
  "CompositeHandlerPlugin_initRuntimeAdapter [] options = options"
| "CompositeHandlerPlugin_initRuntimeAdapter (plugin # plugins) options =
     CompositeHandlerPlugin_initRuntimeAdapter plugins
       (case initRuntimeAdapter plugin of None \<Rightarrow> options | Some init \<Rightarrow> init options)"

record ('sh, 'i, 'so) Handler =
  standardHandler :: 'sh
  handler_adapterInterceptors :: "'i list"
  handler_responseOptions :: 'so

text \<open>
  The constructors of \<open>NodeHttpHandler\<close> and \<open>FetchHandler\<close>: compose the plugins, run
  their hooks on the options, then store the interceptors and the response options.
\<close>

definition Handler_constructor ::
  "'sh \<Rightarrow> ('i, 'so) HandlerOptions \<Rightarrow> ('i, 'so) HandlerOptions HandlerPlugin list option
     \<Rightarrow> ('sh, 'i, 'so) Handler" where
  "Handler_constructor sh options plugins =
     (let plugin = CompositeHandlerPlugin_new plugins;
          options' = CompositeHandlerPlugin_initRuntimeAdapter plugin options
      in \<lparr>standardHandler = sh,
          handler_adapterInterceptors = toArray (adapterInterceptors options'),
          handler_responseOptions = responseOptions options'\<rparr>)"


section \<open>Results of the handlers\<close>

text \<open>
  The result of the inner \<open>StandardHandler.handle\<close>: matched with a standard response,
  or not matched.
\<close>

datatype 'sr StandardHandleResult = StdMatched 'sr | StdNotMatched

text \<open>
  The object an adapter's \<open>handle\<close> resolves to. \<open>FetchHandleResult\<close> is
  \<open>{matched: true, response}\<close> or \<open>{matched: false, response: undefined}\<close>;
  \<open>NodeHttpHandleResult\<close> is \<open>{matched: true}\<close> or \<open>{matched: false}\<close>. A member
  that is absent or \<open>undefined\<close> reads as \<open>None\<close>.
\<close>

record 'r HandleResult =
  matched :: bool
  response :: "'r option"

section \<open>The Node adapter (adapters/node/handler.ts)\<close>

text \<open>
  The closure of one invocation of the body limit interceptor of the Node adapter: the
  limit it reads from the plugin, and its two local variables.
\<close>

record BodyLimitClosure =
  closure_maxBodySize :: int
  isHeaderChecked :: bool
  currentBodySize :: int

text \<open>
  The native request, as far as the adapter layer touches it:
  \<open>Number(request.headers['content-length'])\<close>, and the patches installed on
  \<open>request.emit\<close>, the latest (outermost) first; under them is the original \<open>emit\<close>.
\<close>

record NodeHttpRequest =
  content_length :: js_number
  emit_patches :: "BodyLimitClosure list"

record ('rs, 'so, 'ho) NodeHttpHandlerInterceptorOptions =
  n_request :: NodeHttpRequest
  n_response :: 'rs
  n_sendStandardResponseOptions :: 'so
  n_options :: 'ho

datatype 'rs NodeStandardLazyRequest = node_toStandardLazyRequest NodeHttpRequest 'rs

text \<open>The calls on the collaborators that a call of \<open>handle\<close> makes, in order.\<close>

datatype ('rs, 'ho, 'sr, 'so) node_effect =
    StandardHandlerHandle "'rs NodeStandardLazyRequest" 'ho
  | SendStandardResponse 'rs 'sr 'so

text \<open>
  The outcome of an awaited call of the Node adapter: the value it resolves to or the
  error it rejects with, and the calls made on the collaborators.
\<close>

type_synonym ('r, 'rs, 'ho, 'sr, 'so) node_promise =
  "(error + 'r HandleResult) \<times> ('rs, 'ho, 'sr, 'so) node_effect list"

text \<open>
  The terminal function that \<open>NodeHttpHandler.handle\<close> gives to \<open>intercept\<close>.
  \<open>sendStandardResponse\<close> (of @orpc/standard-server-node) and the inner
  \<open>standardHandler.handle\<close> are parameters; each may reject.
\<close>

definition NodeHttpHandler_main ::
  "('rs \<Rightarrow> 'sr \<Rightarrow> 'so \<Rightarrow> error + unit)
     \<Rightarrow> ('rs NodeStandardLazyRequest \<Rightarrow> 'ho \<Rightarrow> error + 'sr StandardHandleResult)
     \<Rightarrow> ('rs, 'so, 'ho) NodeHttpHandlerInterceptorOptions
     \<Rightarrow> ('r, 'rs, 'ho, 'sr, 'so) node_promise" where
  "NodeHttpHandler_main sendStandardResponse standardHandler_handle opts =
     (let standardRequest = node_toStandardLazyRequest (n_request opts) (n_response opts);
          handled = [StandardHandlerHandle standardRequest (n_options opts)]
      in case standardHandler_handle standardRequest (n_options opts) of
           Inl e \<Rightarrow> (Inl e, handled)
         | Inr StdNotMatched \<Rightarrow> (Inr \<lparr>matched = False, response = None\<rparr>, handled)
         | Inr (StdMatched r) \<Rightarrow>
             (let sent = handled @
                    [SendStandardResponse (n_response opts) r (n_sendStandardResponseOptions opts)]
              in case sendStandardResponse (n_response opts) r (n_sendStandardResponseOptions opts) of
                   Inl e \<Rightarrow> (Inl e, sent)
                 | Inr u \<Rightarrow> (Inr \<lparr>matched = True, response = None\<rparr>, sent)))"

text \<open>
  \<open>NodeHttpHandler.handle\<close>. The argument \<open>rest\<close> is the resolved
  \<open>StandardHandleOptions\<close> (prefix, context); the two helpers that resolve them are
  not among the sources.
\<close>

definition NodeHttpHandler_handle ::
  "('rs \<Rightarrow> 'sr \<Rightarrow> 'so \<Rightarrow> error + unit)
     \<Rightarrow> ('rs NodeStandardLazyRequest \<Rightarrow> 'ho \<Rightarrow> error + 'sr StandardHandleResult,
         (('rs, 'so, 'ho) NodeHttpHandlerInterceptorOptions, ('r, 'rs, 'ho, 'sr, 'so) node_promise)
           interceptor, 'so) Handler
     \<Rightarrow> NodeHttpRequest \<Rightarrow> 'rs \<Rightarrow> 'ho \<Rightarrow> ('r, 'rs, 'ho, 'sr, 'so) node_promise" where
  "NodeHttpHandler_handle sendStandardResponse h request res rest =
     intercept (handler_adapterInterceptors h)
       \<lparr>n_request = request, n_response = res,
        n_sendStandardResponseOptions = handler_responseOptions h, n_options = rest\<rparr>
       (NodeHttpHandler_main sendStandardResponse (standardHandler h))"

section \<open>The body limit plugin of the Node adapter (adapters/node/body-limit-plugin.ts)\<close>

text \<open>
  The plugin holds its limit and nothing else (\<open>private readonly maxBodySize\<close>). Sizes
  are counts of bytes: the limit and the counters are integers.
\<close>

record BodyLimitPlugin =
  maxBodySize :: int

text \<open>
  A call \<open>request.emit(event, ...args)\<close>: the event name and \<open>args[0]\<close>, the chunk of
  a \<open>'data'\<close> event (no other argument is looked at).
\<close>

type_synonym emit_call = "string \<times> chunk"

text \<open>
  What a call of \<open>request.emit\<close> comes to: the original \<open>emit\<close> was called with the
  event, which delivers it to the listeners downstream, or a patch threw.
\<close>

datatype emit_outcome = Emitted emit_call | Threw error

text \<open>\<open>checkHeader\<close>: throws, or returns the new value of \<open>isHeaderChecked\<close>.\<close>

definition checkHeader :: "int \<Rightarrow> js_number \<Rightarrow> bool \<Rightarrow> error + bool" where
  "checkHeader limit declared checked =
     (if \<not> checked \<and> js_gt declared limit then Inl PAYLOAD_TOO_LARGE else Inr True)"

text \<open>
  The body of the replacement of \<open>request.emit\<close>, up to its last line: it throws, or
  goes on to \<open>originalEmit\<close> (\<open>Inr ()\<close>); in both cases the closure is as it leaves it.
\<close>

definition patched_emit ::
  "js_number \<Rightarrow> emit_call \<Rightarrow> BodyLimitClosure \<Rightarrow> (error + unit) \<times> BodyLimitClosure" where
  "patched_emit declared call c =
     (case call of (event, arg) \<Rightarrow>
        if event = ''data'' then
          (case checkHeader (closure_maxBodySize c) declared (isHeaderChecked c) of
             Inl e \<Rightarrow> (Inl e, c)
           | Inr checked \<Rightarrow>
               (let c' = c\<lparr>isHeaderChecked := checked,
                          currentBodySize := currentBodySize c + int (length arg)\<rparr>
                in if currentBodySize c' > closure_maxBodySize c'
                   then (Inl PAYLOAD_TOO_LARGE, c')
                   else (Inr (), c')))
        else (Inr (), c))"

text \<open>
  A call of \<open>emit\<close> on a request whose \<open>emit\<close> has been patched: the outermost patch
  first, each going on to the one under it, the original \<open>emit\<close> last.
\<close>

fun emit_through ::
  "js_number \<Rightarrow> emit_call \<Rightarrow> BodyLimitClosure list \<Rightarrow> emit_outcome \<times> BodyLimitClosure list" where
  "emit_through declared call [] = (Emitted call, [])"
| "emit_through declared call (c # cs) =
     (case patched_emit declared call c of
        (Inl e, c') \<Rightarrow> (Threw e, c' # cs)
      | (Inr u, c') \<Rightarrow>
          (case emit_through declared call cs of (out, cs') \<Rightarrow> (out, c' # cs')))"

definition request_emit :: "emit_call \<Rightarrow> NodeHttpRequest \<Rightarrow> emit_outcome \<times> NodeHttpRequest" where
  "request_emit call request =
     (case emit_through (content_length request) call (emit_patches request) of
        (out, cs) \<Rightarrow> (out, request\<lparr>emit_patches := cs\<rparr>))"

text \<open>
  What the interceptor does to the request before it calls \<open>next\<close>: a new closure
  (\<open>isHeaderChecked = false\<close>, \<open>currentBodySize = 0\<close>) whose function replaces
  \<open>request.emit\<close>.
\<close>

definition NodeBodyLimitPlugin_patch :: "BodyLimitPlugin \<Rightarrow> NodeHttpRequest \<Rightarrow> NodeHttpRequest" where
  "NodeBodyLimitPlugin_patch plugin request =
     request\<lparr>emit_patches :=
       \<lparr>closure_maxBodySize = maxBodySize plugin, isHeaderChecked = False, currentBodySize = 0\<rparr>
         # emit_patches request\<rparr>"

definition NodeBodyLimitPlugin_interceptor ::
  "BodyLimitPlugin \<Rightarrow> (('rs, 'so, 'ho) NodeHttpHandlerInterceptorOptions, 'p) interceptor" where
  "NodeBodyLimitPlugin_interceptor plugin options next =
     next (options\<lparr>n_request := NodeBodyLimitPlugin_patch plugin (n_request options)\<rparr>)"


section \<open>The Fetch adapter (adapters/fetch/handler.ts, body-limit-plugin.ts)\<close>

text \<open>
  A body stream that ends: the chunks it is given to yield, in order, and then its end
  (\<open>done\<close>), or the error it fails with. For the stream that the plugin builds,
  the chunks are those passed to \<open>controller.enqueue\<close>; the platform drops the ones
  its reader has not yet taken when \<open>controller.error\<close> is called, which depends on
  how fast the reader is and is not part of the record.
\<close>

record BodyStream =
  chunks :: "chunk list"
  failure :: "error option"

text \<open>
  The request: \<open>Number(request.headers.get('content-length'))\<close> and \<open>request.body\<close>
  (\<open>None\<close> for \<open>null\<close>).
\<close>

record FetchRequest =
  f_content_length :: js_number
  body :: "BodyStream option"

record ('fo, 'ho) FetchHandlerInterceptorOptions =
  f_request :: FetchRequest
  f_toFetchResponseOptions :: 'fo
  f_options :: 'ho

datatype FetchStandardLazyRequest = fetch_toStandardLazyRequest FetchRequest

text \<open>
  The terminal function that \<open>FetchHandler.handle\<close> gives to \<open>intercept\<close>;
  \<open>toFetchResponse\<close> (of @orpc/standard-server-fetch) and the inner
  \<open>standardHandler.handle\<close> are parameters.
\<close>

definition FetchHandler_main ::
  "('sr \<Rightarrow> 'fo \<Rightarrow> 'r)
     \<Rightarrow> (FetchStandardLazyRequest \<Rightarrow> 'ho \<Rightarrow> error + 'sr StandardHandleResult)
     \<Rightarrow> ('fo, 'ho) FetchHandlerInterceptorOptions \<Rightarrow> error + 'r HandleResult" where
  "FetchHandler_main toFetchResponse standardHandler_handle opts =
     (let standardRequest = fetch_toStandardLazyRequest (f_request opts)
      in case standardHandler_handle standardRequest (f_options opts) of
           Inl e \<Rightarrow> Inl e
         | Inr StdNotMatched \<Rightarrow> Inr \<lparr>matched = False, response = None\<rparr>
         | Inr (StdMatched r) \<Rightarrow>
             Inr \<lparr>matched = True,
                  response = Some (toFetchResponse r (f_toFetchResponseOptions opts))\<rparr>)"

definition FetchHandler_handle ::
  "('sr \<Rightarrow> 'fo \<Rightarrow> 'r)
     \<Rightarrow> (FetchStandardLazyRequest \<Rightarrow> 'ho \<Rightarrow> error + 'sr StandardHandleResult,
         (('fo, 'ho) FetchHandlerInterceptorOptions, error + 'r HandleResult) interceptor,
         'fo) Handler
     \<Rightarrow> FetchRequest \<Rightarrow> 'ho \<Rightarrow> error + 'r HandleResult" where
  "FetchHandler_handle toFetchResponse h request rest =
     intercept (handler_adapterInterceptors h)
       \<lparr>f_request = request, f_toFetchResponseOptions = handler_responseOptions h,
        f_options = rest\<rparr>
       (FetchHandler_main toFetchResponse (standardHandler h))"

text \<open>
  The state of the \<open>start\<close> function of the wrapping stream: its local
  \<open>currentBodySize\<close>, what \<open>rawReader\<close> has yet to yield, the new stream as the
  controller has built it (the chunks enqueued; the failure once \<open>controller.error\<close> was
  called), the number of calls of \<open>rawReader.read()\<close>, and whether the function is still
  running.
\<close>

record FetchBodyLimitState =
  f_currentBodySize :: int
  rawReader :: BodyStream
  controller :: BodyStream
  reads :: nat
  running :: bool

text \<open>
  The check of the length header, before the loop. \<open>controller.close()\<close> in the
  \<open>finally\<close> block ends a stream that is readable and leaves an errored one as it is.
\<close>

definition start_begin :: "BodyLimitPlugin \<Rightarrow> js_number \<Rightarrow> BodyStream \<Rightarrow> FetchBodyLimitState" where
  "start_begin plugin declared raw =
     (if js_gt declared (maxBodySize plugin)
      then \<lparr>f_currentBodySize = 0, rawReader = raw,
            controller = \<lparr>chunks = [], failure = Some PAYLOAD_TOO_LARGE\<rparr>,
            reads = 0, running = False\<rparr>
      else \<lparr>f_currentBodySize = 0, rawReader = raw,
            controller = \<lparr>chunks = [], failure = None\<rparr>,
            reads = 0, running = True\<rparr>)"

text \<open>
  One turn of the \<open>while (true)\<close> loop: one \<open>await rawReader.read()\<close> and what follows
  it. When the raw stream is at its end the loop is left: by \<open>break\<close> when the read
  reports \<open>done\<close>, by the error when the read rejects. There is no \<open>catch\<close>: in
  both cases the \<open>finally\<close> block calls \<open>controller.close()\<close>, which ends the new
  stream, its reader having taken what was enqueued; the error of a rejected read only
  rejects the promise of \<open>start\<close>, and the new stream does not fail with it.
\<close>

definition loop_iteration :: "BodyLimitPlugin \<Rightarrow> FetchBodyLimitState \<Rightarrow> FetchBodyLimitState" where
  "loop_iteration plugin s =
     (case chunks (rawReader s) of
        [] \<Rightarrow> s\<lparr>reads := Suc (reads s), running := False\<rparr>
      | v # vs \<Rightarrow>
          (let total = f_currentBodySize s + int (length v)
           in if total > maxBodySize plugin
              then s\<lparr>f_currentBodySize := total, rawReader := (rawReader s)\<lparr>chunks := vs\<rparr>,
                     controller := (controller s)\<lparr>failure := Some PAYLOAD_TOO_LARGE\<rparr>,
                     reads := Suc (reads s), running := False\<rparr>
              else s\<lparr>f_currentBodySize := total, rawReader := (rawReader s)\<lparr>chunks := vs\<rparr>,
                     controller := (controller s)\<lparr>chunks := chunks (controller s) @ [v]\<rparr>,
                     reads := Suc (reads s)\<rparr>))"

function start_loop :: "BodyLimitPlugin \<Rightarrow> FetchBodyLimitState \<Rightarrow> FetchBodyLimitState" where
  "start_loop plugin s = (if running s then start_loop plugin (loop_iteration plugin s) else s)"
  by pat_completeness auto
termination
  by (relation "measure (\<lambda>(plugin, s). if running s then Suc (length (chunks (rawReader s))) else 0)")
     (auto simp: loop_iteration_def Let_def split: list.splits)

declare start_loop.simps [simp del]

definition start :: "BodyLimitPlugin \<Rightarrow> js_number \<Rightarrow> BodyStream \<Rightarrow> FetchBodyLimitState" where
  "start plugin declared raw = start_loop plugin (start_begin plugin declared raw)"

text \<open>
  The interceptor: a request without a body goes on unchanged; otherwise \<open>next\<close> gets
  a request whose body is the new stream.
\<close>

definition FetchBodyLimitPlugin_interceptor ::
  "BodyLimitPlugin \<Rightarrow> (('fo, 'ho) FetchHandlerInterceptorOptions, 'p) interceptor" where
  "FetchBodyLimitPlugin_interceptor plugin options next =
     (case body (f_request options) of
        None \<Rightarrow> next options
      | Some raw \<Rightarrow>
          next (options\<lparr>f_request := (f_request options)
                  \<lparr>body := Some (controller
                     (start plugin (f_content_length (f_request options)) raw))\<rparr>\<rparr>))"


section \<open>One call on its own\<close>

text \<open>
  One call on its own: the things that happen to it, in order, each changing the state
  of the call and giving an outcome.
\<close>

fun run_call :: "('a \<Rightarrow> 's \<Rightarrow> 'out \<times> 's) \<Rightarrow> 'a list \<Rightarrow> 's \<Rightarrow> 'out list \<times> 's" where
  "run_call step [] s = ([], s)"
| "run_call step (a # as) s =
     (case step a s of (out, s') \<Rightarrow>
        (case run_call step as s' of (outs, s'') \<Rightarrow> (out # outs, s'')))"

text \<open>The steps of one call, and their outcomes, picked out of an interleaving.\<close>

definition of_call :: "'c \<Rightarrow> ('c \<times> 'x) list \<Rightarrow> 'x list" where
  "of_call c xs = map snd (filter (\<lambda>x. fst x = c) xs)"

text \<open>
  What happens to a call of the Node adapter: the interceptor of the plugin runs on its
  request, or the runtime calls \<open>request.emit\<close>.
\<close>

datatype node_step = NodeIntercept | NodeEmit emit_call

definition node_call_step ::
  "BodyLimitPlugin \<Rightarrow> node_step \<Rightarrow> NodeHttpRequest \<Rightarrow> emit_outcome option \<times> NodeHttpRequest" where
  "node_call_step plugin a request =
     (case a of
        NodeIntercept \<Rightarrow> (None, NodeBodyLimitPlugin_patch plugin request)
      | NodeEmit call \<Rightarrow>
          (case request_emit call request of (out, request') \<Rightarrow> (Some out, request')))"

text \<open>
  What happens to a call of the Fetch adapter: the interceptor of the plugin runs on its
  request, which starts the \<open>start\<close> function of the new stream, or that function resumes
  after an \<open>await\<close> for one more turn of its loop.
\<close>

datatype fetch_step = FetchIntercept | FetchResume

record FetchCall =
  call_request :: FetchRequest
  call_start :: "FetchBodyLimitState option"

definition fetch_call_step :: "BodyLimitPlugin \<Rightarrow> fetch_step \<Rightarrow> FetchCall \<Rightarrow> unit \<times> FetchCall" where
  "fetch_call_step plugin a call =
     (case a of
        FetchIntercept \<Rightarrow>
          (case body (call_request call) of
             None \<Rightarrow> ((), call)
           | Some raw \<Rightarrow>
               ((), call\<lparr>call_start :=
                      Some (start_begin plugin (f_content_length (call_request call)) raw)\<rparr>))
      | FetchResume \<Rightarrow>
          (case call_start call of
             None \<Rightarrow> ((), call)
           | Some s \<Rightarrow>
               ((), if running s then call\<lparr>call_start := Some (loop_iteration plugin s)\<rparr>
                    else call)))"

section \<open>Calls in flight on one heap\<close>

text \<open>
  The variables that an invocation of the interceptor declares (\<open>let isHeaderChecked\<close>,
  \<open>let currentBodySize\<close>, and for Fetch the variables of \<open>start\<close>) live in an
  environment that the invocation creates and the functions it defines refer to. All
  the environments of all the calls are in one heap: an environment is known by its
  address, and a new one takes the next free address.
\<close>

record 'e Heap =
  environments :: "nat \<Rightarrow> 'e"
  allocated :: nat

definition allocate :: "'e \<Rightarrow> 'e Heap \<Rightarrow> nat \<times> 'e Heap" where
  "allocate e h =
     (allocated h,
      \<lparr>environments = (environments h)(allocated h := e), allocated = Suc (allocated h)\<rparr>)"

text \<open>
  Several calls in flight on one event loop: what happens is a sequence of steps, each
  of one call, in any interleaving. A step gets the state of the whole system.
\<close>

fun run_system ::
  "('c \<times> 'a \<Rightarrow> 'sys \<Rightarrow> 'out \<times> 'sys) \<Rightarrow> ('c \<times> 'a) list \<Rightarrow> 'sys \<Rightarrow> ('c \<times> 'out) list \<times> 'sys" where
  "run_system step [] sys = ([], sys)"
| "run_system step (x # xs) sys =
     (case step x sys of (out, sys') \<Rightarrow>
        (case run_system step xs sys' of (outs, sys'') \<Rightarrow> ((fst x, out) # outs, sys'')))"

text \<open>
  The native request of the Node adapter in the heap: the patches on \<open>request.emit\<close>
  are the addresses of the environments of their closures, the latest first.
\<close>

record NodeHttpRequestRef =
  ref_content_length :: js_number
  ref_emit_patches :: "nat list"

text \<open>
  A call of \<open>emit\<close> on such a request: each patch reads and writes the variables of
  its own environment.
\<close>

fun emit_through_heap ::
  "js_number \<Rightarrow> emit_call \<Rightarrow> nat list \<Rightarrow> BodyLimitClosure Heap
     \<Rightarrow> emit_outcome \<times> BodyLimitClosure Heap" where
  "emit_through_heap declared call [] h = (Emitted call, h)"
| "emit_through_heap declared call (a # as) h =
     (case patched_emit declared call (environments h a) of
        (Inl e, c') \<Rightarrow> (Threw e, h\<lparr>environments := (environments h)(a := c')\<rparr>)
      | (Inr u, c') \<Rightarrow>
          emit_through_heap declared call as (h\<lparr>environments := (environments h)(a := c')\<rparr>))"

record 'c NodeSystem =
  node_heap :: "BodyLimitClosure Heap"
  node_requests :: "'c \<Rightarrow> NodeHttpRequestRef"

text \<open>
  A step of a call \<open>c\<close> of the Node adapter, on the whole system: the interceptor of
  the plugin runs on the request of \<open>c\<close> (a new environment, whose closure replaces
  \<open>request.emit\<close>), or the runtime calls \<open>emit\<close> on the request of \<open>c\<close>.
\<close>

definition node_system_step ::
  "BodyLimitPlugin \<Rightarrow> 'c \<times> node_step \<Rightarrow> 'c NodeSystem \<Rightarrow> emit_outcome option \<times> 'c NodeSystem" where
  "node_system_step plugin x sys =
     (case x of (c, a) \<Rightarrow>
        (let request = node_requests sys c
         in case a of
              NodeIntercept \<Rightarrow>
                (case allocate
                        \<lparr>closure_maxBodySize = maxBodySize plugin, isHeaderChecked = False,
                         currentBodySize = 0\<rparr> (node_heap sys) of
                   (address, heap') \<Rightarrow>
                     (None,
                      \<lparr>node_heap = heap',
                       node_requests = (node_requests sys)
                         (c := request\<lparr>ref_emit_patches := address # ref_emit_patches request\<rparr>)\<rparr>))
            | NodeEmit call \<Rightarrow>
                (case emit_through_heap (ref_content_length request) call
                        (ref_emit_patches request) (node_heap sys) of
                   (out, heap') \<Rightarrow> (Some out, sys\<lparr>node_heap := heap'\<rparr>))))"

text \<open>
  The system before any interceptor has run: no environment, and for each call its
  request with the declared length and the original \<open>emit\<close>.
\<close>

definition node_system_start :: "('c \<Rightarrow> js_number) \<Rightarrow> 'c NodeSystem" where
  "node_system_start declared =
     \<lparr>node_heap =
        \<lparr>environments =
           (\<lambda>a. \<lparr>closure_maxBodySize = 0, isHeaderChecked = False, currentBodySize = 0\<rparr>),
         allocated = 0\<rparr>,
      node_requests = (\<lambda>c. \<lparr>ref_content_length = declared c, ref_emit_patches = []\<rparr>)\<rparr>"

text \<open>The request of a call with the variables its patches refer to, read off the heap.\<close>

definition node_call_view :: "'c NodeSystem \<Rightarrow> 'c \<Rightarrow> NodeHttpRequest" where
  "node_call_view sys c =
     \<lparr>content_length = ref_content_length (node_requests sys c),
      emit_patches =
        map (environments (node_heap sys)) (ref_emit_patches (node_requests sys c))\<rparr>"

text \<open>
  The same for the Fetch adapter: the interceptor creates the environment of the
  \<open>start\<close> function of the new stream, and the call keeps its address.
\<close>

record FetchCallRef =
  ref_request :: FetchRequest
  ref_start :: "nat option"

record 'c FetchSystem =
  fetch_heap :: "FetchBodyLimitState Heap"
  fetch_calls :: "'c \<Rightarrow> FetchCallRef"

definition fetch_system_step ::
  "BodyLimitPlugin \<Rightarrow> 'c \<times> fetch_step \<Rightarrow> 'c FetchSystem \<Rightarrow> unit \<times> 'c FetchSystem" where
  "fetch_system_step plugin x sys =
     (case x of (c, a) \<Rightarrow>
        (let call = fetch_calls sys c
         in case a of
              FetchIntercept \<Rightarrow>
                (case body (ref_request call) of
                   None \<Rightarrow> ((), sys)
                 | Some raw \<Rightarrow>
                     (case allocate
                             (start_begin plugin (f_content_length (ref_request call)) raw)
                             (fetch_heap sys) of
                        (address, heap') \<Rightarrow>
                          ((), \<lparr>fetch_heap = heap',
                                fetch_calls = (fetch_calls sys)
                                  (c := call\<lparr>ref_start := Some address\<rparr>)\<rparr>)))
            | FetchResume \<Rightarrow>
                (case ref_start call of
                   None \<Rightarrow> ((), sys)
                 | Some address \<Rightarrow>
                     (let s = environments (fetch_heap sys) address
                      in ((), if running s
                              then sys\<lparr>fetch_heap := (fetch_heap sys)
                                     \<lparr>environments := (environments (fetch_heap sys))
                                        (address := loop_iteration plugin s)\<rparr>\<rparr>
                              else sys)))))"

definition fetch_system_start :: "('c \<Rightarrow> FetchRequest) \<Rightarrow> 'c FetchSystem" where
  "fetch_system_start requests =
     \<lparr>fetch_heap =
        \<lparr>environments =
           (\<lambda>a. \<lparr>f_currentBodySize = 0, rawReader = \<lparr>chunks = [], failure = None\<rparr>,
                 controller = \<lparr>chunks = [], failure = None\<rparr>, reads = 0, running = False\<rparr>),
         allocated = 0\<rparr>,
      fetch_calls = (\<lambda>c. \<lparr>ref_request = requests c, ref_start = None\<rparr>)\<rparr>"

definition fetch_call_view :: "'c FetchSystem \<Rightarrow> 'c \<Rightarrow> FetchCall" where
  "fetch_call_view sys c =
     \<lparr>call_request = ref_request (fetch_calls sys c),
      call_start = map_option (environments (fetch_heap sys)) (ref_start (fetch_calls sys c))\<rparr>"

text \<open>The number of bytes of a sequence of chunks.\<close>

definition total_size :: "chunk list \<Rightarrow> int" where
  "total_size cs = (\<Sum>c\<leftarrow>cs. int (length c))"

section \<open>Vocabulary of the properties\<close>




text \<open>
  The steps of one call, as they stand in an interleaving.
\<close>

definition steps_of_call :: "'c \<Rightarrow> ('c \<times> 'a) list \<Rightarrow> ('c \<times> 'a) list" where
  "steps_of_call c steps = filter (\<lambda>x. fst x = c) steps"

text \<open>
  The environments of the calls are separate: every address a call holds has been
  allocated, and no address is held twice, by one call or by two.
\<close>

definition node_separate :: "'c NodeSystem \<Rightarrow> bool" where
  "node_separate sys =
     ((\<forall>c. distinct (ref_emit_patches (node_requests sys c))
          \<and> (\<forall>a \<in> set (ref_emit_patches (node_requests sys c)). a < allocated (node_heap sys)))
      \<and> (\<forall>c c'. c \<noteq> c' \<longrightarrow>
            set (ref_emit_patches (node_requests sys c))
              \<inter> set (ref_emit_patches (node_requests sys c')) = {}))"

definition fetch_separate :: "'c FetchSystem \<Rightarrow> bool" where
  "fetch_separate sys =
     ((\<forall>c a. ref_start (fetch_calls sys c) = Some a \<longrightarrow> a < allocated (fetch_heap sys))
      \<and> (\<forall>c c' a. c \<noteq> c' \<longrightarrow> ref_start (fetch_calls sys c) = Some a
            \<longrightarrow> ref_start (fetch_calls sys c') \<noteq> Some a))"



text \<open>
  The two shapes \<open>{matched: true, response}\<close> and \<open>{matched: false}\<close>: the result
  carries a response exactly when it is matched. \<open>completes_with P\<close> holds of a call
  that rejects, and of a call that completes with a result of which \<open>P\<close> holds.
\<close>

definition one_of_two_shapes :: "'r HandleResult \<Rightarrow> bool" where
  "one_of_two_shapes r = (matched r = (response r \<noteq> None))"

definition without_response :: "'r HandleResult \<Rightarrow> bool" where
  "without_response r = (response r = None)"

definition completes_with :: "('a \<Rightarrow> bool) \<Rightarrow> error + 'a \<Rightarrow> bool" where
  "completes_with P outcome = (case outcome of Inl e \<Rightarrow> True | Inr r \<Rightarrow> P r)"

section \<open>Example collaborators\<close>

text \<open>
  An inner handler that matches the requests under the prefix \<open>/rpc\<close>, a response
  writer that succeeds, a request without a length header, and an adapter interceptor
  that answers by itself what the inner handler did not match.
\<close>

definition example_standardHandler ::
  "'rq \<Rightarrow> string \<Rightarrow> error + string StandardHandleResult" where
  "example_standardHandler standardRequest prefix =
     (if prefix = ''/rpc'' then Inr (StdMatched ''pong'') else Inr StdNotMatched)"

definition example_sendStandardResponse :: "string \<Rightarrow> string \<Rightarrow> string \<Rightarrow> error + unit" where
  "example_sendStandardResponse res r opts = Inr ()"

definition example_toFetchResponse :: "string \<Rightarrow> string \<Rightarrow> string" where
  "example_toFetchResponse r opts = r"

definition example_request :: NodeHttpRequest where
  "example_request = \<lparr>content_length = NaN, emit_patches = []\<rparr>"

definition example_fetch_request :: FetchRequest where
  "example_fetch_request =
     \<lparr>f_content_length = Num 0, body = Some \<lparr>chunks = [[1, 2], [3, 4]], failure = None\<rparr>\<rparr>"


text \<open>
  Two calls in flight through one plugin with the limit 3, neither with a length
  header: call 0 sends two chunks of two bytes, call 1 a chunk of two bytes and a chunk
  of one, interleaved.
\<close>

definition example_steps :: "(nat \<times> node_step) list" where
  "example_steps =
     [(0, NodeIntercept), (1, NodeIntercept),
      (0, NodeEmit (''data'', [1, 2])), (1, NodeEmit (''data'', [5, 6])),
      (0, NodeEmit (''data'', [3, 4])), (1, NodeEmit (''data'', [7]))]"

definition example_declared :: "nat \<Rightarrow> js_number" where
  "example_declared c = NaN"

section \<open>Properties of the client proxy\<close>

lemma c_path_createORPCClient:
  "c_path (createORPCClient link (Some \<lparr>path = Some p\<rparr>)) = p"
  by (simp add: createORPCClient_def)

lemma path_update_eq: "(opts :: createORPCClientOptions)\<lparr>path := v\<rparr> = \<lparr>path = v\<rparr>"
  by (cases opts) simp

lemma proxy_get_StringKey:
  "proxy_get rg c (StringKey k) =
     (NestedClient (createORPCClient (c_link c) (Some \<lparr>path = Some (c_path c @ [k])\<rparr>)), [])"
  by (cases "c_options c") (simp_all add: proxy_get_def path_update_eq)

lemma access_strings:
  "access rg c (map StringKey ks) =
     (Some (if ks = [] then c
            else createORPCClient (c_link c) (Some \<lparr>path = Some (c_path c @ ks)\<rparr>)), [])"
proof (induction ks arbitrary: c)
  case Nil
  then show ?case by simp
next
  case (Cons k ks)
  show ?case
    by (simp add: proxy_get_StringKey Cons.IH) (simp add: createORPCClient_def)
qed

text \<open>
  C6. For every base path \<open>p\<close> and every finite sequence of string keys \<open>ks\<close> read on
  the client returned by \<open>createORPCClient\<close>, reading the properties makes no call on
  the link, and invoking the value reached with input \<open>x\<close> and options \<open>opts\<close> calls
  \<open>link.call\<close> exactly once, with the path \<open>p\<close> followed by \<open>ks\<close> in access order,
  the input \<open>x\<close> and the resolved options, and returns what that call returns.
\<close>

theorem createORPCClient_call_path:
  "access rg (createORPCClient link (Some \<lparr>path = Some p\<rparr>)) (map StringKey ks) =
     (Some (createORPCClient link (Some \<lparr>path = Some (p @ ks)\<rparr>)), [])
   \<and> c_path (createORPCClient link (Some \<lparr>path = Some (p @ ks)\<rparr>)) = p @ ks
   \<and> procedureClient resolve no_options
         (createORPCClient link (Some \<lparr>path = Some (p @ ks)\<rparr>)) x (Some opts) =
       (link (p @ ks) x (resolve opts), [LinkCall (p @ ks) x (resolve opts)])
   \<and> procedureClient resolve no_options
         (createORPCClient link (Some \<lparr>path = Some (p @ ks)\<rparr>)) x None =
       (link (p @ ks) x (resolve no_options), [LinkCall (p @ ks) x (resolve no_options)])
   \<and> map_option c_path (fst (access rg (createORPCClient link None) (map StringKey ks))) = Some ks
   \<and> snd (access rg (createORPCClient link None) (map StringKey ks)) = []"
proof -
  have a: "access rg (createORPCClient link (Some \<lparr>path = Some p\<rparr>)) (map StringKey ks) =
     (Some (createORPCClient link (Some \<lparr>path = Some (p @ ks)\<rparr>)), [])"
    by (simp add: access_strings) (simp add: createORPCClient_def)
  have b: "map_option c_path (fst (access rg (createORPCClient link None) (map StringKey ks))) = Some ks"
    by (simp add: access_strings) (simp add: createORPCClient_def)
  have c: "snd (access rg (createORPCClient link None) (map StringKey ks)) = []"
    by (simp add: access_strings)
  show ?thesis
    using a b c by (simp add: procedureClient_def) (simp add: createORPCClient_def)
qed

lemma access_keys:
  "access rg c ks =
     (if list_all is_StringKey ks
      then Some (if ks = [] then c
                 else createORPCClient (c_link c)
                        (Some \<lparr>path = Some (c_path c @ the_string_keys ks)\<rparr>))
      else None, [])"
proof (induction ks arbitrary: c)
  case Nil
  then show ?case by simp
next
  case (Cons k ks)
  show ?case
  proof (cases k)
    case (StringKey s)
    then show ?thesis
      by (simp add: proxy_get_StringKey Cons.IH) (simp add: createORPCClient_def)
  next
    case (SymbolKey s)
    then show ?thesis by (simp add: proxy_get_def)
  qed
qed

text \<open>
  C10. Reading a non-string key (a symbol) on a client proxy returns the target's own
  property, not a client, and calls nothing on the link; reading a string key returns a
  nested client whose path is the old path with the key appended. Hence a chain of reads
  reaches a client only when all its keys are strings, and the path of that client is
  the base path followed by exactly these keys: no symbol key ever extends a path.
\<close>

theorem proxy_get_symbol_key:
  "proxy_get rg c (SymbolKey s) = (TargetProperty (rg s), [])
   \<and> proxy_get rg c (StringKey k) =
       (NestedClient (createORPCClient (c_link c) (Some \<lparr>path = Some (c_path c @ [k])\<rparr>)), [])
   \<and> c_path (createORPCClient (c_link c) (Some \<lparr>path = Some (c_path c @ [k])\<rparr>)) = c_path c @ [k]
   \<and> map_option c_path (fst (access rg c ks)) =
       (if list_all is_StringKey ks then Some (c_path c @ the_string_keys ks) else None)
   \<and> fst (access rg c (ks @ SymbolKey s # ks')) = None"
proof -
  have a: "proxy_get rg c (SymbolKey s) = (TargetProperty (rg s), [])"
    by (simp add: proxy_get_def)
  have b: "map_option c_path (fst (access rg c ks)) =
       (if list_all is_StringKey ks then Some (c_path c @ the_string_keys ks) else None)"
    by (simp add: access_keys c_path_createORPCClient)
  have d: "fst (access rg c (ks @ SymbolKey s # ks')) = None"
    by (simp add: access_keys)
  show ?thesis
    using a b d by (simp add: proxy_get_StringKey c_path_createORPCClient)
qed

section \<open>Properties of the middleware output helper\<close>

text \<open>
  C7. For every output value \<open>v\<close>, \<open>middlewareOutputFn v\<close> is a middleware result whose
  output is exactly \<open>v\<close> and whose context is the empty map, so that merging it into any
  incoming context adds nothing.
\<close>

theorem middlewareOutputFn_result:
  "mr_output (middlewareOutputFn v) = v
   \<and> mr_context (middlewareOutputFn v) = Map.empty
   \<and> mergeContext incoming (mr_context (middlewareOutputFn v)) = incoming"
  by (simp add: middlewareOutputFn_def mergeContext_def)

section \<open>Properties of the body limit plugin\<close>

lemma run_call_append:
  "run_call step (as @ bs) s =
     (case run_call step as s of (outs, s') \<Rightarrow>
        (case run_call step bs s' of (outs', s'') \<Rightarrow> (outs @ outs', s'')))"
  by (induction as arbitrary: s) (auto split: prod.splits)

lemma total_size_simps [simp]:
  "total_size [] = 0"
  "total_size (c # cs) = int (length c) + total_size cs"
  "total_size (cs @ ds) = total_size cs + total_size ds"
  by (simp_all add: total_size_def)

lemma total_size_nonneg: "0 \<le> total_size cs"
  by (induction cs) simp_all

lemma total_size_take_Suc:
  "k < length cs \<Longrightarrow> total_size (take (Suc k) cs) = total_size (take k cs) + int (length (cs ! k))"
  by (simp add: take_Suc_conv_app_nth)

lemma node_data_below:
  "(b \<or> \<not> js_gt d m) \<Longrightarrow> n + total_size cs \<le> m \<Longrightarrow>
   run_call request_emit (map (Pair ''data'') cs)
     \<lparr>content_length = d,
      emit_patches = [\<lparr>closure_maxBodySize = m, isHeaderChecked = b, currentBodySize = n\<rparr>]\<rparr> =
   (map (\<lambda>v. Emitted (''data'', v)) cs,
    \<lparr>content_length = d,
     emit_patches = [\<lparr>closure_maxBodySize = m, isHeaderChecked = (b \<or> cs \<noteq> []),
                      currentBodySize = n + total_size cs\<rparr>]\<rparr>)"
proof (induction cs arbitrary: b n)
  case Nil
  then show ?case by simp
next
  case (Cons v vs)
  have le: "n + int (length v) \<le> m"
    using Cons.prems(2) total_size_nonneg [of vs] by simp
  have step: "request_emit (''data'', v)
     \<lparr>content_length = d,
      emit_patches = [\<lparr>closure_maxBodySize = m, isHeaderChecked = b, currentBodySize = n\<rparr>]\<rparr> =
     (Emitted (''data'', v),
      \<lparr>content_length = d,
       emit_patches = [\<lparr>closure_maxBodySize = m, isHeaderChecked = True,
                        currentBodySize = n + int (length v)\<rparr>]\<rparr>)"
    using Cons.prems(1) le by (auto simp: request_emit_def patched_emit_def checkHeader_def)
  have rest: "run_call request_emit (map (Pair ''data'') vs)
     \<lparr>content_length = d,
      emit_patches = [\<lparr>closure_maxBodySize = m, isHeaderChecked = True,
                       currentBodySize = n + int (length v)\<rparr>]\<rparr> =
     (map (\<lambda>v. Emitted (''data'', v)) vs,
      \<lparr>content_length = d,
       emit_patches = [\<lparr>closure_maxBodySize = m, isHeaderChecked = True,
                        currentBodySize = n + int (length v) + total_size vs\<rparr>]\<rparr>)"
    using Cons.IH [of True "n + int (length v)"] Cons.prems(2) by (simp add: add.assoc)
  show ?case by (simp add: step rest add.assoc)
qed

lemma node_data_above:
  "n > m \<Longrightarrow>
   \<exists>n' b'. n' > m \<and>
   run_call request_emit (map (Pair ''data'') cs)
     \<lparr>content_length = d,
      emit_patches = [\<lparr>closure_maxBodySize = m, isHeaderChecked = b, currentBodySize = n\<rparr>]\<rparr> =
   (replicate (length cs) (Threw PAYLOAD_TOO_LARGE),
    \<lparr>content_length = d,
     emit_patches = [\<lparr>closure_maxBodySize = m, isHeaderChecked = b', currentBodySize = n'\<rparr>]\<rparr>)"
proof (induction cs arbitrary: b n)
  case Nil
  then show ?case by auto
next
  case (Cons v vs)
  obtain b1 n1 where n1: "n1 > m" and step: "request_emit (''data'', v)
     \<lparr>content_length = d,
      emit_patches = [\<lparr>closure_maxBodySize = m, isHeaderChecked = b, currentBodySize = n\<rparr>]\<rparr> =
     (Threw PAYLOAD_TOO_LARGE,
      \<lparr>content_length = d,
       emit_patches = [\<lparr>closure_maxBodySize = m, isHeaderChecked = b1, currentBodySize = n1\<rparr>]\<rparr>)"
    using Cons.prems by (cases "\<not> b \<and> js_gt d m")
      (auto simp: request_emit_def patched_emit_def checkHeader_def)
  from Cons.IH [OF n1, of b1] obtain n2 b2 where "n2 > m" and
    "run_call request_emit (map (Pair ''data'') vs)
     \<lparr>content_length = d,
      emit_patches = [\<lparr>closure_maxBodySize = m, isHeaderChecked = b1, currentBodySize = n1\<rparr>]\<rparr> =
   (replicate (length vs) (Threw PAYLOAD_TOO_LARGE),
    \<lparr>content_length = d,
     emit_patches = [\<lparr>closure_maxBodySize = m, isHeaderChecked = b2, currentBodySize = n2\<rparr>]\<rparr>)"
    by blast
  then show ?case using step by auto
qed

lemma node_header_above_any:
  "js_gt d m \<Longrightarrow>
   run_call request_emit evs
     \<lparr>content_length = d,
      emit_patches = [\<lparr>closure_maxBodySize = m, isHeaderChecked = False, currentBodySize = n\<rparr>]\<rparr> =
   (map (\<lambda>ev. if fst ev = ''data'' then Threw PAYLOAD_TOO_LARGE else Emitted ev) evs,
    \<lparr>content_length = d,
     emit_patches = [\<lparr>closure_maxBodySize = m, isHeaderChecked = False, currentBodySize = n\<rparr>]\<rparr>)"
  by (induction evs) (auto simp: request_emit_def patched_emit_def checkHeader_def)

lemma fetch_below:
  "n + total_size cs \<le> maxBodySize plugin \<Longrightarrow>
   start_loop plugin
     \<lparr>f_currentBodySize = n, rawReader = \<lparr>chunks = cs, failure = f\<rparr>,
      controller = \<lparr>chunks = q, failure = None\<rparr>, reads = r, running = True\<rparr> =
     \<lparr>f_currentBodySize = n + total_size cs, rawReader = \<lparr>chunks = [], failure = f\<rparr>,
      controller = \<lparr>chunks = q @ cs, failure = None\<rparr>, reads = Suc (r + length cs),
      running = False\<rparr>"
proof (induction cs arbitrary: n q r)
  case Nil
  show ?case
    by (subst start_loop.simps, subst start_loop.simps)
       (simp add: loop_iteration_def)
next
  case (Cons v vs)
  have le: "n + int (length v) \<le> maxBodySize plugin"
    using Cons.prems total_size_nonneg [of vs] by simp
  have "n + int (length v) + total_size vs \<le> maxBodySize plugin"
    using Cons.prems by simp
  from Cons.IH [OF this, of "q @ [v]" "Suc r"] le show ?case
    by (subst start_loop.simps) (simp add: loop_iteration_def add.assoc)
qed

lemma fetch_cross:
  "n + total_size pre \<le> maxBodySize plugin \<Longrightarrow>
   maxBodySize plugin < n + total_size pre + int (length v) \<Longrightarrow>
   start_loop plugin
     \<lparr>f_currentBodySize = n, rawReader = \<lparr>chunks = pre @ v # post, failure = f\<rparr>,
      controller = \<lparr>chunks = q, failure = None\<rparr>, reads = r, running = True\<rparr> =
     \<lparr>f_currentBodySize = n + total_size pre + int (length v),
      rawReader = \<lparr>chunks = post, failure = f\<rparr>,
      controller = \<lparr>chunks = q @ pre, failure = Some PAYLOAD_TOO_LARGE\<rparr>,
      reads = Suc (r + length pre), running = False\<rparr>"
proof (induction pre arbitrary: n q r)
  case Nil
  then show ?case
    by (subst start_loop.simps, subst start_loop.simps) (simp add: loop_iteration_def)
next
  case (Cons u us)
  have le: "n + int (length u) \<le> maxBodySize plugin"
    using Cons.prems(1) total_size_nonneg [of us] by simp
  have a: "n + int (length u) + total_size us \<le> maxBodySize plugin"
    using Cons.prems(1) by simp
  have b: "maxBodySize plugin < n + int (length u) + total_size us + int (length v)"
    using Cons.prems(2) by simp
  from Cons.IH [OF a b, of "q @ [u]" "Suc r"] le show ?case
    by (subst start_loop.simps) (simp add: loop_iteration_def add.assoc)
qed

text \<open>
  C2, as amended. Take a body streamed as the chunks \<open>cs\<close> on a request whose length
  header does not exceed the limit (it is absent, zero or understated), and let chunk
  \<open>k\<close> be the first one whose arrival makes the cumulative byte count strictly exceed
  \<open>maxBodySize\<close>. In the Node adapter the chunks before it are passed on to the original
  \<open>emit\<close>, unchanged and in order, and the \<open>emit\<close> of chunk \<open>k\<close> and of every later
  chunk throws \<open>PAYLOAD_TOO_LARGE\<close>. In the Fetch adapter the chunks before it are
  enqueued on the new stream, which is then failed with \<open>PAYLOAD_TOO_LARGE\<close> after
  exactly \<open>k + 1\<close> reads; the later chunks are never read.
\<close>

theorem body_limit_crossing_chunk:
  assumes "k < length cs"
    and "total_size (take k cs) \<le> maxBodySize plugin"
    and "maxBodySize plugin < total_size (take (Suc k) cs)"
    and "\<not> js_gt declared (maxBodySize plugin)"
  shows "fst (run_call request_emit (map (Pair ''data'') cs)
            (NodeBodyLimitPlugin_patch plugin \<lparr>content_length = declared, emit_patches = []\<rparr>)) =
           map (\<lambda>v. Emitted (''data'', v)) (take k cs)
             @ replicate (length cs - k) (Threw PAYLOAD_TOO_LARGE)
         \<and> controller (start plugin declared \<lparr>chunks = cs, failure = f\<rparr>) =
             \<lparr>chunks = take k cs, failure = Some PAYLOAD_TOO_LARGE\<rparr>
         \<and> reads (start plugin declared \<lparr>chunks = cs, failure = f\<rparr>) = Suc k
         \<and> chunks (rawReader (start plugin declared \<lparr>chunks = cs, failure = f\<rparr>)) = drop (Suc k) cs"
proof -
  let ?m = "maxBodySize plugin"
  let ?pre = "take k cs" and ?v = "cs ! k" and ?post = "drop (Suc k) cs"
  have split: "?pre @ ?v # ?post = cs"
    using assms(1) by (simp add: id_take_nth_drop [symmetric])
  have cross: "?m < total_size ?pre + int (length ?v)"
    using assms(1,3) by (simp add: total_size_take_Suc)
  have below: "0 + total_size ?pre \<le> ?m"
    using assms(2) by simp
  \<comment> \<open>Node\<close>
  have n1: "run_call request_emit (map (Pair ''data'') ?pre)
      \<lparr>content_length = declared,
       emit_patches = [\<lparr>closure_maxBodySize = ?m, isHeaderChecked = False, currentBodySize = 0\<rparr>]\<rparr> =
     (map (\<lambda>v. Emitted (''data'', v)) ?pre,
      \<lparr>content_length = declared,
       emit_patches = [\<lparr>closure_maxBodySize = ?m, isHeaderChecked = (False \<or> ?pre \<noteq> []),
                        currentBodySize = 0 + total_size ?pre\<rparr>]\<rparr>)"
    using assms(4) below by (intro node_data_below) simp_all
  obtain b1 where n2: "request_emit (''data'', ?v)
      \<lparr>content_length = declared,
       emit_patches = [\<lparr>closure_maxBodySize = ?m, isHeaderChecked = (False \<or> ?pre \<noteq> []),
                        currentBodySize = 0 + total_size ?pre\<rparr>]\<rparr> =
     (Threw PAYLOAD_TOO_LARGE,
      \<lparr>content_length = declared,
       emit_patches = [\<lparr>closure_maxBodySize = ?m, isHeaderChecked = b1,
                        currentBodySize = total_size ?pre + int (length ?v)\<rparr>]\<rparr>)"
    using assms(4) cross by (auto simp: request_emit_def patched_emit_def checkHeader_def)
  obtain n3 b3 where n3: "run_call request_emit (map (Pair ''data'') ?post)
      \<lparr>content_length = declared,
       emit_patches = [\<lparr>closure_maxBodySize = ?m, isHeaderChecked = b1,
                        currentBodySize = total_size ?pre + int (length ?v)\<rparr>]\<rparr> =
     (replicate (length ?post) (Threw PAYLOAD_TOO_LARGE),
      \<lparr>content_length = declared,
       emit_patches = [\<lparr>closure_maxBodySize = ?m, isHeaderChecked = b3, currentBodySize = n3\<rparr>]\<rparr>)"
    using node_data_above [OF cross, of ?post declared b1] by blast
  have "fst (run_call request_emit (map (Pair ''data'') (?pre @ ?v # ?post))
            (NodeBodyLimitPlugin_patch plugin \<lparr>content_length = declared, emit_patches = []\<rparr>)) =
        map (\<lambda>v. Emitted (''data'', v)) ?pre
          @ Threw PAYLOAD_TOO_LARGE # replicate (length ?post) (Threw PAYLOAD_TOO_LARGE)"
    unfolding map_append list.map
    by (simp only: run_call_append NodeBodyLimitPlugin_patch_def)
       (simp add: n1 [simplified] n2 [simplified] n3)
  then have "fst (run_call request_emit (map (Pair ''data'') cs)
            (NodeBodyLimitPlugin_patch plugin \<lparr>content_length = declared, emit_patches = []\<rparr>)) =
        map (\<lambda>v. Emitted (''data'', v)) ?pre
          @ Threw PAYLOAD_TOO_LARGE # replicate (length ?post) (Threw PAYLOAD_TOO_LARGE)"
    by (simp only: split)
  moreover have "length cs - k = Suc (length ?post)"
    using assms(1) by simp
  ultimately have node: "fst (run_call request_emit (map (Pair ''data'') cs)
            (NodeBodyLimitPlugin_patch plugin \<lparr>content_length = declared, emit_patches = []\<rparr>)) =
           map (\<lambda>v. Emitted (''data'', v)) (take k cs)
             @ replicate (length cs - k) (Threw PAYLOAD_TOO_LARGE)"
    by simp
  \<comment> \<open>Fetch\<close>
  have "start plugin declared \<lparr>chunks = ?pre @ ?v # ?post, failure = f\<rparr> =
     \<lparr>f_currentBodySize = 0 + total_size ?pre + int (length ?v),
      rawReader = \<lparr>chunks = ?post, failure = f\<rparr>,
      controller = \<lparr>chunks = [] @ ?pre, failure = Some PAYLOAD_TOO_LARGE\<rparr>,
      reads = Suc (0 + length ?pre), running = False\<rparr>"
    unfolding start_def start_begin_def using assms(4) fetch_cross [OF below, of ?v ?post f "[]" 0] cross
    by simp
  then have fetch: "start plugin declared \<lparr>chunks = cs, failure = f\<rparr> =
     \<lparr>f_currentBodySize = 0 + total_size ?pre + int (length ?v),
      rawReader = \<lparr>chunks = ?post, failure = f\<rparr>,
      controller = \<lparr>chunks = [] @ ?pre, failure = Some PAYLOAD_TOO_LARGE\<rparr>,
      reads = Suc (0 + length ?pre), running = False\<rparr>"
    by (simp only: split)
  show ?thesis
    using node assms(1) by (simp add: fetch)
qed

theorem body_limit_crossing_chunk_witness:
  "(1::nat) < length [[1, 2], [3, 4], [5 :: byte]]
   \<and> total_size (take 1 [[1, 2], [3, 4], [5]]) \<le> maxBodySize \<lparr>maxBodySize = 3\<rparr>
   \<and> maxBodySize \<lparr>maxBodySize = 3\<rparr> < total_size (take (Suc 1) [[1, 2], [3, 4], [5]])
   \<and> \<not> js_gt NaN (maxBodySize \<lparr>maxBodySize = 3\<rparr>)
   \<and> fst (run_call request_emit (map (Pair ''data'') [[1, 2], [3, 4], [5]])
          (NodeBodyLimitPlugin_patch \<lparr>maxBodySize = 3\<rparr>
             \<lparr>content_length = NaN, emit_patches = []\<rparr>)) =
       [Emitted (''data'', [1, 2]), Threw PAYLOAD_TOO_LARGE, Threw PAYLOAD_TOO_LARGE]
   \<and> controller (start \<lparr>maxBodySize = 3\<rparr> NaN \<lparr>chunks = [[1, 2], [3, 4], [5]], failure = None\<rparr>) =
       \<lparr>chunks = [[1, 2]], failure = Some PAYLOAD_TOO_LARGE\<rparr>
   \<and> reads (start \<lparr>maxBodySize = 3\<rparr> NaN \<lparr>chunks = [[1, 2], [3, 4], [5]], failure = None\<rparr>) = 2"
proof -
  have h1: "(1::nat) < length [[1, 2], [3, 4], [5 :: byte]]"
    by simp
  have h2: "total_size (take 1 [[1, 2], [3, 4], [5]]) \<le> maxBodySize \<lparr>maxBodySize = 3\<rparr>"
    by simp
  have h3: "maxBodySize \<lparr>maxBodySize = 3\<rparr> < total_size (take (Suc 1) [[1, 2], [3, 4], [5]])"
    by simp
  have h4: "\<not> js_gt NaN (maxBodySize \<lparr>maxBodySize = 3\<rparr>)"
    by simp
  show ?thesis
    using h1 h2 h3 h4 body_limit_crossing_chunk [OF h1 h2 h3 h4, of None]
    by (simp add: numeral_2_eq_2)
qed

text \<open>
  The claim C2 as it is written says that the bytes received before the crossing chunk
  are not delivered downstream. With the limit 3 and two chunks of two bytes, the first
  chunk has been passed on to the original \<open>emit\<close> (Node) and enqueued on the new
  stream (Fetch) when the second one trips the limit.
\<close>

theorem body_limit_crossing_chunk_counterexample:
  "fst (run_call request_emit [(''data'', [1, 2]), (''data'', [3, 4])]
          (NodeBodyLimitPlugin_patch \<lparr>maxBodySize = 3\<rparr>
             \<lparr>content_length = NaN, emit_patches = []\<rparr>)) =
     [Emitted (''data'', [1, 2]), Threw PAYLOAD_TOO_LARGE]
   \<and> controller (start \<lparr>maxBodySize = 3\<rparr> (Num 0) \<lparr>chunks = [[1, 2], [3, 4]], failure = None\<rparr>) =
       \<lparr>chunks = [[1, 2]], failure = Some PAYLOAD_TOO_LARGE\<rparr>"
  by (simp add: NodeBodyLimitPlugin_patch_def request_emit_def patched_emit_def checkHeader_def
        start_def start_begin_def start_loop.simps loop_iteration_def)

text \<open>
  C3, as amended. When the length header of a request with a body reads as a number
  above \<open>maxBodySize\<close> (a limit below \<open>2^53\<close>, where the numbers are exact), the
  plugin fails the body with \<open>PAYLOAD_TOO_LARGE\<close> before any of its bytes is read or
  goes downstream, and goes on to \<open>next\<close>. In the Node adapter the interceptor
  patches \<open>request.emit\<close> and calls \<open>next\<close>; from then on every \<open>'data'\<close> event
  throws and none reaches the original \<open>emit\<close>, whatever its size, while the other
  events pass and the closure stays as it was (\<open>currentBodySize = 0\<close>). In the Fetch
  adapter \<open>next\<close> gets the request with a new stream that is failed already: nothing
  is read from the raw reader and nothing is enqueued. A Fetch request without a body
  goes to \<open>next\<close> as it is.
\<close>

theorem body_limit_declared_length:
  assumes "maxBodySize plugin < n" and "maxBodySize plugin < 2 ^ 53"
  shows "NodeBodyLimitPlugin_interceptor plugin
           (options\<lparr>n_request := \<lparr>content_length = Num n, emit_patches = []\<rparr>\<rparr>) continue =
           continue (options\<lparr>n_request :=
             NodeBodyLimitPlugin_patch plugin \<lparr>content_length = Num n, emit_patches = []\<rparr>\<rparr>)
         \<and> run_call request_emit evs
             (NodeBodyLimitPlugin_patch plugin \<lparr>content_length = Num n, emit_patches = []\<rparr>) =
             (map (\<lambda>ev. if fst ev = ''data'' then Threw PAYLOAD_TOO_LARGE else Emitted ev) evs,
              NodeBodyLimitPlugin_patch plugin \<lparr>content_length = Num n, emit_patches = []\<rparr>)
         \<and> start plugin (Num n) raw =
             \<lparr>f_currentBodySize = 0, rawReader = raw,
              controller = \<lparr>chunks = [], failure = Some PAYLOAD_TOO_LARGE\<rparr>,
              reads = 0, running = False\<rparr>
         \<and> FetchBodyLimitPlugin_interceptor plugin
             (foptions\<lparr>f_request := \<lparr>f_content_length = Num n, body = Some raw\<rparr>\<rparr>) fcontinue =
             fcontinue (foptions\<lparr>f_request := \<lparr>f_content_length = Num n,
                     body = Some \<lparr>chunks = [], failure = Some PAYLOAD_TOO_LARGE\<rparr>\<rparr>\<rparr>)
         \<and> FetchBodyLimitPlugin_interceptor plugin
             (foptions\<lparr>f_request := \<lparr>f_content_length = Num n, body = None\<rparr>\<rparr>) fcontinue =
             fcontinue (foptions\<lparr>f_request := \<lparr>f_content_length = Num n, body = None\<rparr>\<rparr>)"
proof -
  have gt: "js_gt (Num n) (maxBodySize plugin)"
    using assms(1) by simp
  have node: "run_call request_emit evs
           (NodeBodyLimitPlugin_patch plugin \<lparr>content_length = Num n, emit_patches = []\<rparr>) =
           (map (\<lambda>ev. if fst ev = ''data'' then Threw PAYLOAD_TOO_LARGE else Emitted ev) evs,
            NodeBodyLimitPlugin_patch plugin \<lparr>content_length = Num n, emit_patches = []\<rparr>)"
    unfolding NodeBodyLimitPlugin_patch_def using node_header_above_any [OF gt] by simp
  have fetch: "start plugin (Num n) raw =
             \<lparr>f_currentBodySize = 0, rawReader = raw,
              controller = \<lparr>chunks = [], failure = Some PAYLOAD_TOO_LARGE\<rparr>,
              reads = 0, running = False\<rparr>"
    using gt by (simp add: start_def start_begin_def start_loop.simps)
  show ?thesis
    using node
    by (simp add: fetch FetchBodyLimitPlugin_interceptor_def NodeBodyLimitPlugin_interceptor_def)
qed

theorem body_limit_declared_length_witness:
  "maxBodySize \<lparr>maxBodySize = 3\<rparr> < 10
   \<and> maxBodySize \<lparr>maxBodySize = 3\<rparr> < 2 ^ 53
   \<and> NodeBodyLimitPlugin_interceptor \<lparr>maxBodySize = 3\<rparr>
         \<lparr>n_request = \<lparr>content_length = Num 10, emit_patches = []\<rparr>, n_response = ''res'',
          n_sendStandardResponseOptions = ''keep-alive'', n_options = ''/rpc''\<rparr>
         n_request =
       NodeBodyLimitPlugin_patch \<lparr>maxBodySize = 3\<rparr> \<lparr>content_length = Num 10, emit_patches = []\<rparr>
   \<and> run_call request_emit [(''data'', [1]), (''end'', [])]
         (NodeBodyLimitPlugin_patch \<lparr>maxBodySize = 3\<rparr>
            \<lparr>content_length = Num 10, emit_patches = []\<rparr>) =
       ([Threw PAYLOAD_TOO_LARGE, Emitted (''end'', [])],
        NodeBodyLimitPlugin_patch \<lparr>maxBodySize = 3\<rparr>
          \<lparr>content_length = Num 10, emit_patches = []\<rparr>)
   \<and> start \<lparr>maxBodySize = 3\<rparr> (Num 10) \<lparr>chunks = [[1]], failure = None\<rparr> =
       \<lparr>f_currentBodySize = 0, rawReader = \<lparr>chunks = [[1]], failure = None\<rparr>,
        controller = \<lparr>chunks = [], failure = Some PAYLOAD_TOO_LARGE\<rparr>,
        reads = 0, running = False\<rparr>
   \<and> FetchBodyLimitPlugin_interceptor \<lparr>maxBodySize = 3\<rparr>
         \<lparr>f_request = \<lparr>f_content_length = Num 10,
                        body = Some \<lparr>chunks = [[1]], failure = None\<rparr>\<rparr>,
          f_toFetchResponseOptions = ''opts'', f_options = ''/rpc''\<rparr>
         f_request =
       \<lparr>f_content_length = Num 10,
        body = Some \<lparr>chunks = [], failure = Some PAYLOAD_TOO_LARGE\<rparr>\<rparr>"
proof -
  have h1: "maxBodySize \<lparr>maxBodySize = 3\<rparr> < 10"
    by simp
  have h2: "maxBodySize \<lparr>maxBodySize = 3\<rparr> < 2 ^ 53"
    by simp
  show ?thesis
    using h1 h2 body_limit_declared_length
      [OF h1 h2,
       where options = "\<lparr>n_request = example_request, n_response = ''res'',
               n_sendStandardResponseOptions = ''keep-alive'', n_options = ''/rpc''\<rparr>"
         and continue = n_request
         and evs = "[(''data'', [1]), (''end'', [])]"
         and raw = "\<lparr>chunks = [[1]], failure = None\<rparr>"
         and foptions = "\<lparr>f_request = example_fetch_request, f_toFetchResponseOptions = ''opts'',
               f_options = ''/rpc''\<rparr>"
         and fcontinue = f_request]
    by simp
qed

text \<open>
  The claim C3 as it is written says that the plugin rejects the call. The interceptor
  returns what \<open>next\<close> returns: with the limit 3 and a declared length of 10, a call
  whose body the inner handler does not read completes with a match in both adapters,
  and so does a Fetch call without a body.
\<close>

theorem body_limit_declared_length_counterexample:
  "FetchHandler_handle example_toFetchResponse
     \<lparr>standardHandler = example_standardHandler,
      handler_adapterInterceptors = [FetchBodyLimitPlugin_interceptor \<lparr>maxBodySize = 3\<rparr>],
      handler_responseOptions = ''opts''\<rparr>
     \<lparr>f_content_length = Num 10, body = Some \<lparr>chunks = [[1, 2], [3, 4]], failure = None\<rparr>\<rparr>
     ''/rpc''
     = Inr \<lparr>matched = True, response = Some ''pong''\<rparr>
   \<and> FetchHandler_handle example_toFetchResponse
       \<lparr>standardHandler = example_standardHandler,
        handler_adapterInterceptors = [FetchBodyLimitPlugin_interceptor \<lparr>maxBodySize = 3\<rparr>],
        handler_responseOptions = ''opts''\<rparr>
       \<lparr>f_content_length = Num 10, body = None\<rparr> ''/rpc''
     = Inr \<lparr>matched = True, response = Some ''pong''\<rparr>
   \<and> NodeHttpHandler_handle example_sendStandardResponse
       \<lparr>standardHandler = example_standardHandler,
        handler_adapterInterceptors = [NodeBodyLimitPlugin_interceptor \<lparr>maxBodySize = 3\<rparr>],
        handler_responseOptions = ''keep-alive''\<rparr>
       \<lparr>content_length = Num 10, emit_patches = []\<rparr> ''res'' ''/rpc''
     = (Inr \<lparr>matched = True, response = (None :: unit option)\<rparr>,
        [StandardHandlerHandle
           (node_toStandardLazyRequest
              (NodeBodyLimitPlugin_patch \<lparr>maxBodySize = 3\<rparr>
                 \<lparr>content_length = Num 10, emit_patches = []\<rparr>) ''res'')
           ''/rpc'',
         SendStandardResponse ''res'' ''pong'' ''keep-alive''])"
  by (simp add: FetchHandler_handle_def FetchBodyLimitPlugin_interceptor_def FetchHandler_main_def
        example_standardHandler_def example_toFetchResponse_def
        NodeHttpHandler_handle_def NodeBodyLimitPlugin_interceptor_def NodeHttpHandler_main_def
        example_sendStandardResponse_def)

text \<open>
  C8. A body whose declared length and whose streamed size are both exactly
  \<open>maxBodySize\<close> is accepted: both comparisons are strict. In the Node adapter every
  chunk reaches the original \<open>emit\<close> and the counter ends at the limit; in the Fetch
  adapter every chunk is enqueued and the new stream ends without a failure.
\<close>

theorem body_limit_inclusive:
  assumes "total_size cs = maxBodySize plugin"
  shows "run_call request_emit (map (Pair ''data'') cs)
            (NodeBodyLimitPlugin_patch plugin
               \<lparr>content_length = Num (maxBodySize plugin), emit_patches = []\<rparr>) =
           (map (\<lambda>v. Emitted (''data'', v)) cs,
            \<lparr>content_length = Num (maxBodySize plugin),
             emit_patches = [\<lparr>closure_maxBodySize = maxBodySize plugin,
                              isHeaderChecked = (cs \<noteq> []),
                              currentBodySize = maxBodySize plugin\<rparr>]\<rparr>)
         \<and> start plugin (Num (maxBodySize plugin)) \<lparr>chunks = cs, failure = None\<rparr> =
             \<lparr>f_currentBodySize = maxBodySize plugin,
              rawReader = \<lparr>chunks = [], failure = None\<rparr>,
              controller = \<lparr>chunks = cs, failure = None\<rparr>,
              reads = Suc (length cs), running = False\<rparr>"
proof -
  have le: "0 + total_size cs \<le> maxBodySize plugin"
    using assms by simp
  have node: "run_call request_emit (map (Pair ''data'') cs)
      \<lparr>content_length = Num (maxBodySize plugin),
       emit_patches = [\<lparr>closure_maxBodySize = maxBodySize plugin, isHeaderChecked = False,
                        currentBodySize = 0\<rparr>]\<rparr> =
     (map (\<lambda>v. Emitted (''data'', v)) cs,
      \<lparr>content_length = Num (maxBodySize plugin),
       emit_patches = [\<lparr>closure_maxBodySize = maxBodySize plugin,
                        isHeaderChecked = (False \<or> cs \<noteq> []),
                        currentBodySize = 0 + total_size cs\<rparr>]\<rparr>)"
    using le by (intro node_data_below) simp_all
  have fetch: "start plugin (Num (maxBodySize plugin)) \<lparr>chunks = cs, failure = None\<rparr> =
     \<lparr>f_currentBodySize = 0 + total_size cs, rawReader = \<lparr>chunks = [], failure = None\<rparr>,
      controller = \<lparr>chunks = [] @ cs, failure = None\<rparr>, reads = Suc (0 + length cs),
      running = False\<rparr>"
    unfolding start_def start_begin_def using fetch_below [OF le, of None "[]" 0] by simp
  show ?thesis
    using node assms by (simp add: fetch NodeBodyLimitPlugin_patch_def)
qed

theorem body_limit_inclusive_witness:
  "total_size [[1, 2], [3]] = maxBodySize \<lparr>maxBodySize = 3\<rparr>
   \<and> fst (run_call request_emit (map (Pair ''data'') [[1, 2], [3]])
          (NodeBodyLimitPlugin_patch \<lparr>maxBodySize = 3\<rparr>
             \<lparr>content_length = Num 3, emit_patches = []\<rparr>)) =
       [Emitted (''data'', [1, 2]), Emitted (''data'', [3])]
   \<and> controller (start \<lparr>maxBodySize = 3\<rparr> (Num 3) \<lparr>chunks = [[1, 2], [3]], failure = None\<rparr>) =
       \<lparr>chunks = [[1, 2], [3]], failure = None\<rparr>"
proof -
  have h: "total_size [[1, 2], [3]] = maxBodySize \<lparr>maxBodySize = 3\<rparr>"
    by simp
  show ?thesis
    using h body_limit_inclusive [OF h] by simp
qed

lemma emit_through_heap_view:
  "distinct as \<Longrightarrow>
   fst (emit_through_heap d call as h) = fst (emit_through d call (map (environments h) as))
   \<and> map (environments (snd (emit_through_heap d call as h))) as =
       snd (emit_through d call (map (environments h) as))
   \<and> (\<forall>b. b \<notin> set as \<longrightarrow> environments (snd (emit_through_heap d call as h)) b = environments h b)
   \<and> allocated (snd (emit_through_heap d call as h)) = allocated h"
proof (induction as arbitrary: h)
  case Nil
  then show ?case by simp
next
  case (Cons a as)
  obtain r c' where pe: "patched_emit d call (environments h a) = (r, c')"
    by (cases "patched_emit d call (environments h a)")
  define h' where "h' = h\<lparr>environments := (environments h)(a := c')\<rparr>"
  have na: "a \<notin> set as" and dist: "distinct as"
    using Cons.prems by simp_all
  have same: "map (environments h') as = map (environments h) as"
    using na by (simp add: h'_def)
  show ?case
  proof (cases r)
    case (Inl e)
    then show ?thesis
      using pe na by (simp add: map_idI)
  next
    case (Inr u)
    from Cons.IH [OF dist, of h'] have ih:
      "fst (emit_through_heap d call as h') = fst (emit_through d call (map (environments h) as))"
      "map (environments (snd (emit_through_heap d call as h'))) as =
         snd (emit_through d call (map (environments h) as))"
      "\<And>b. b \<notin> set as \<Longrightarrow> environments (snd (emit_through_heap d call as h')) b = environments h' b"
      "allocated (snd (emit_through_heap d call as h')) = allocated h'"
      by (simp_all add: same)
    have at_a: "environments (snd (emit_through_heap d call as h')) a = c'"
      using ih(3) [OF na] by (simp add: h'_def)
    show ?thesis
      using Inr pe ih at_a
      by (simp add: h'_def [symmetric] split: prod.splits) (simp add: h'_def)
  qed
qed

lemma node_system_step_view:
  assumes "node_separate sys"
  shows "fst (node_system_step plugin (c, a) sys) = fst (node_call_step plugin a (node_call_view sys c))
     \<and> node_call_view (snd (node_system_step plugin (c, a) sys)) c =
         snd (node_call_step plugin a (node_call_view sys c))
     \<and> (\<forall>c'. c' \<noteq> c \<longrightarrow>
           node_call_view (snd (node_system_step plugin (c, a) sys)) c' = node_call_view sys c')
     \<and> node_separate (snd (node_system_step plugin (c, a) sys))"
proof (cases a)
  case NodeIntercept
  have below: "\<And>c' b. b \<in> set (ref_emit_patches (node_requests sys c')) \<Longrightarrow> b < allocated (node_heap sys)"
    using assms by (simp add: node_separate_def)
  have fresh: "\<And>c'. allocated (node_heap sys) \<notin> set (ref_emit_patches (node_requests sys c'))"
    using below by blast
  have keep: "\<And>c' e. map ((environments (node_heap sys))(allocated (node_heap sys) := e))
                  (ref_emit_patches (node_requests sys c')) =
                map (environments (node_heap sys)) (ref_emit_patches (node_requests sys c'))"
    using fresh by (simp add: map_idI)
  show ?thesis
    using NodeIntercept assms fresh
    apply (simp add: node_system_step_def node_call_step_def node_call_view_def allocate_def
        NodeBodyLimitPlugin_patch_def keep Let_def)
    apply (auto simp: node_separate_def less_Suc_eq)
    done
next
  case (NodeEmit call)
  let ?as = "ref_emit_patches (node_requests sys c)"
  let ?d = "ref_content_length (node_requests sys c)"
  let ?h = "node_heap sys"
  have dist: "distinct ?as"
    using assms by (simp add: node_separate_def)
  note v = emit_through_heap_view [OF dist, of ?d call ?h]
  have others: "\<And>c'. c' \<noteq> c \<Longrightarrow>
      map (environments (snd (emit_through_heap ?d call ?as ?h))) (ref_emit_patches (node_requests sys c')) =
      map (environments ?h) (ref_emit_patches (node_requests sys c'))"
  proof -
    fix c' assume "c' \<noteq> c"
    then have "set (ref_emit_patches (node_requests sys c')) \<inter> set ?as = {}"
      using assms by (simp add: node_separate_def)
    then show "map (environments (snd (emit_through_heap ?d call ?as ?h))) (ref_emit_patches (node_requests sys c')) =
      map (environments ?h) (ref_emit_patches (node_requests sys c'))"
      using v by (intro map_cong) auto
  qed
  obtain out h' where eh: "emit_through_heap ?d call ?as ?h = (out, h')"
    by (cases "emit_through_heap ?d call ?as ?h")
  obtain o2 cs2 where ev: "emit_through ?d call (map (environments ?h) ?as) = (o2, cs2)"
    by (cases "emit_through ?d call (map (environments ?h) ?as)")
  have f1: "out = o2" and f2: "map (environments h') ?as = cs2"
    and f3: "allocated h' = allocated ?h"
    using v by (simp_all add: eh ev)
  have f4: "\<And>c'. c' \<noteq> c \<Longrightarrow>
      map (environments h') (ref_emit_patches (node_requests sys c')) =
      map (environments ?h) (ref_emit_patches (node_requests sys c'))"
    using others by (simp add: eh)
  have sep: "node_separate (sys\<lparr>node_heap := h'\<rparr>)"
    using assms f3 by (simp add: node_separate_def)
  show ?thesis
    using NodeEmit f1 f2 f4 sep
    by (simp add: node_system_step_def node_call_step_def node_call_view_def request_emit_def
          Let_def eh ev)
qed

lemma node_run_system_view:
  "node_separate sys \<Longrightarrow>
   of_call c (fst (run_system (node_system_step plugin) steps sys)) =
     fst (run_call (node_call_step plugin) (of_call c steps) (node_call_view sys c))
   \<and> node_call_view (snd (run_system (node_system_step plugin) steps sys)) c =
       snd (run_call (node_call_step plugin) (of_call c steps) (node_call_view sys c))"
proof (induction steps arbitrary: sys)
  case Nil
  then show ?case by (simp add: of_call_def)
next
  case (Cons x steps)
  obtain c' a where x: "x = (c', a)" by (cases x)
  obtain out sys' where st: "node_system_step plugin (c', a) sys = (out, sys')"
    by (cases "node_system_step plugin (c', a) sys")
  note sv = node_system_step_view [OF Cons.prems, of plugin c' a, unfolded st fst_conv snd_conv]
  have sep: "node_separate sys'" using sv by simp
  obtain outs final where rest: "run_system (node_system_step plugin) steps sys' = (outs, final)"
    by (cases "run_system (node_system_step plugin) steps sys'")
  note ih = Cons.IH [OF sep, unfolded rest fst_conv snd_conv]
  show ?case
  proof (cases "c' = c")
    case True
    obtain o2 r2 where cs: "node_call_step plugin a (node_call_view sys c) = (o2, r2)"
      by (cases "node_call_step plugin a (node_call_view sys c)")
    with sv True have "out = o2" "node_call_view sys' c = r2" by simp_all
    with ih True x st rest cs show ?thesis
      by (simp add: of_call_def split: prod.splits)
  next
    case False
    with sv have "node_call_view sys' c = node_call_view sys c" by simp
    with ih False x st rest show ?thesis
      by (simp add: of_call_def)
  qed
qed

lemma node_separate_start: "node_separate (node_system_start declared)"
  by (simp add: node_separate_def node_system_start_def)

lemma fetch_system_step_view:
  assumes "fetch_separate sys"
  shows "fetch_call_view (snd (fetch_system_step plugin (c, a) sys)) c =
           snd (fetch_call_step plugin a (fetch_call_view sys c))
     \<and> (\<forall>c'. c' \<noteq> c \<longrightarrow>
           fetch_call_view (snd (fetch_system_step plugin (c, a) sys)) c' = fetch_call_view sys c')
     \<and> fetch_separate (snd (fetch_system_step plugin (c, a) sys))"
proof (cases a)
  case FetchIntercept
  have below: "\<And>c' b. ref_start (fetch_calls sys c') = Some b \<Longrightarrow> b < allocated (fetch_heap sys)"
    using assms by (simp add: fetch_separate_def)
  have fresh: "\<And>c'. ref_start (fetch_calls sys c') \<noteq> Some (allocated (fetch_heap sys))"
    using below by blast
  have keep: "\<And>c' e. map_option ((environments (fetch_heap sys))(allocated (fetch_heap sys) := e))
                  (ref_start (fetch_calls sys c')) =
                map_option (environments (fetch_heap sys)) (ref_start (fetch_calls sys c'))"
    using fresh by (simp add: map_option_case split: option.splits)
  show ?thesis
  proof (cases "body (ref_request (fetch_calls sys c))")
    case None
    with FetchIntercept assms show ?thesis
      by (simp add: fetch_system_step_def fetch_call_step_def fetch_call_view_def)
  next
    case (Some raw)
    with FetchIntercept assms fresh show ?thesis
      apply (simp add: fetch_system_step_def fetch_call_step_def fetch_call_view_def allocate_def
          keep Let_def)
      apply (auto simp: fetch_separate_def less_Suc_eq)
      done
  qed
next
  case FetchResume
  show ?thesis
  proof (cases "ref_start (fetch_calls sys c)")
    case None
    with FetchResume assms show ?thesis
      by (simp add: fetch_system_step_def fetch_call_step_def fetch_call_view_def)
  next
    case (Some address)
    have others: "\<And>c'. c' \<noteq> c \<Longrightarrow> ref_start (fetch_calls sys c') \<noteq> Some address"
      using assms Some by (auto simp: fetch_separate_def)
    have keep: "\<And>c' e. c' \<noteq> c \<Longrightarrow>
        map_option ((environments (fetch_heap sys))(address := e)) (ref_start (fetch_calls sys c')) =
        map_option (environments (fetch_heap sys)) (ref_start (fetch_calls sys c'))"
      using others by (simp add: map_option_case split: option.splits)
    have sep: "\<And>e. fetch_separate (sys\<lparr>fetch_heap := (fetch_heap sys)
                 \<lparr>environments := (environments (fetch_heap sys))(address := e)\<rparr>\<rparr>)"
      using assms by (simp add: fetch_separate_def)
    show ?thesis
      using FetchResume Some assms keep sep
      by (simp add: fetch_system_step_def fetch_call_step_def fetch_call_view_def Let_def)
  qed
qed

lemma fetch_run_system_view:
  "fetch_separate sys \<Longrightarrow>
   fetch_call_view (snd (run_system (fetch_system_step plugin) steps sys)) c =
     snd (run_call (fetch_call_step plugin) (of_call c steps) (fetch_call_view sys c))"
proof (induction steps arbitrary: sys)
  case Nil
  then show ?case by (simp add: of_call_def)
next
  case (Cons x steps)
  obtain c' a where x: "x = (c', a)" by (cases x)
  obtain out sys' where st: "fetch_system_step plugin (c', a) sys = (out, sys')"
    by (cases "fetch_system_step plugin (c', a) sys")
  note sv = fetch_system_step_view [OF Cons.prems, of plugin c' a, unfolded st snd_conv]
  have sep: "fetch_separate sys'" using sv by simp
  obtain outs final where rest: "run_system (fetch_system_step plugin) steps sys' = (outs, final)"
    by (cases "run_system (fetch_system_step plugin) steps sys'")
  note ih = Cons.IH [OF sep, unfolded rest snd_conv]
  show ?case
  proof (cases "c' = c")
    case True
    obtain o2 r2 where cs: "fetch_call_step plugin a (fetch_call_view sys c) = (o2, r2)"
      by (cases "fetch_call_step plugin a (fetch_call_view sys c)")
    with sv True have "fetch_call_view sys' c = r2" by simp
    with ih True x st rest cs show ?thesis
      by (simp add: of_call_def split: prod.splits)
  next
    case False
    with sv have "fetch_call_view sys' c = fetch_call_view sys c" by simp
    with ih False x st rest show ?thesis
      by (simp add: of_call_def)
  qed
qed

lemma fetch_separate_start: "fetch_separate (fetch_system_start requests)"
  by (simp add: fetch_separate_def fetch_system_start_def)

lemma of_call_steps_of_call: "of_call c (steps_of_call c steps) = of_call c steps"
  by (simp add: of_call_def steps_of_call_def)

text \<open>
  C4. The running byte counter belongs to the call. Every invocation of the interceptor
  creates its own variables, in one heap that all the calls share; the plugin holds
  only the limit. For any calls in flight through one plugin, in any interleaving of
  their steps on that heap, what a call \<open>c\<close> sees (which of its \<open>emit\<close>s throw) and
  the state it ends in (its counter among it) are those of the run in which only the
  steps of \<open>c\<close> happen, and those of \<open>c\<close> alone with its variables held by value: the
  bytes of the other calls have no part in them. This holds of the closure of the Node
  interceptor and of the \<open>start\<close> function of the Fetch interceptor.
\<close>

theorem body_limit_counter_call_local:
  "of_call c (fst (run_system (node_system_step plugin) nsteps (node_system_start declared))) =
     of_call c (fst (run_system (node_system_step plugin) (steps_of_call c nsteps)
                  (node_system_start declared)))
   \<and> node_call_view (snd (run_system (node_system_step plugin) nsteps (node_system_start declared))) c =
       node_call_view (snd (run_system (node_system_step plugin) (steps_of_call c nsteps)
                  (node_system_start declared))) c
   \<and> of_call c (fst (run_system (node_system_step plugin) nsteps (node_system_start declared))) =
       fst (run_call (node_call_step plugin) (of_call c nsteps)
              \<lparr>content_length = declared c, emit_patches = []\<rparr>)
   \<and> node_call_view (snd (run_system (node_system_step plugin) nsteps (node_system_start declared))) c =
       snd (run_call (node_call_step plugin) (of_call c nsteps)
              \<lparr>content_length = declared c, emit_patches = []\<rparr>)
   \<and> fetch_call_view (snd (run_system (fetch_system_step plugin) fsteps (fetch_system_start requests))) c =
       fetch_call_view (snd (run_system (fetch_system_step plugin) (steps_of_call c fsteps)
                  (fetch_system_start requests))) c
   \<and> fetch_call_view (snd (run_system (fetch_system_step plugin) fsteps (fetch_system_start requests))) c =
       snd (run_call (fetch_call_step plugin) (of_call c fsteps)
              \<lparr>call_request = requests c, call_start = None\<rparr>)"
proof -
  have nv: "node_call_view (node_system_start declared) c =
      \<lparr>content_length = declared c, emit_patches = []\<rparr>"
    by (simp add: node_call_view_def node_system_start_def)
  have fv: "fetch_call_view (fetch_system_start requests) c =
      \<lparr>call_request = requests c, call_start = None\<rparr>"
    by (simp add: fetch_call_view_def fetch_system_start_def)
  note n1 = node_run_system_view [OF node_separate_start, of c plugin nsteps declared]
  note n2 = node_run_system_view
    [OF node_separate_start, of c plugin "steps_of_call c nsteps" declared]
  note f1 = fetch_run_system_view [OF fetch_separate_start, of plugin fsteps requests c]
  note f2 = fetch_run_system_view
    [OF fetch_separate_start, of plugin "steps_of_call c fsteps" requests c]
  show ?thesis
    using n1 n2 f1 f2 by (simp add: of_call_steps_of_call nv fv)
qed

theorem body_limit_counter_call_local_witness:
  "of_call 0 (fst (run_system (node_system_step \<lparr>maxBodySize = 3\<rparr>) example_steps
                    (node_system_start example_declared))) =
     [None, Some (Emitted (''data'', [1, 2])), Some (Threw PAYLOAD_TOO_LARGE)]
   \<and> of_call 1 (fst (run_system (node_system_step \<lparr>maxBodySize = 3\<rparr>) example_steps
                    (node_system_start example_declared))) =
     [None, Some (Emitted (''data'', [5, 6])), Some (Emitted (''data'', [7]))]
   \<and> of_call 0 (fst (run_system (node_system_step \<lparr>maxBodySize = 3\<rparr>)
                    (steps_of_call 0 example_steps)
                    (node_system_start example_declared))) =
     [None, Some (Emitted (''data'', [1, 2])), Some (Threw PAYLOAD_TOO_LARGE)]"
proof -
  have run: "fst (run_call (node_call_step \<lparr>maxBodySize = 3\<rparr>) (of_call 0 example_steps)
              \<lparr>content_length = example_declared 0, emit_patches = []\<rparr>) =
     [None, Some (Emitted (''data'', [1, 2])), Some (Threw PAYLOAD_TOO_LARGE)]"
    by (simp add: example_steps_def example_declared_def of_call_def node_call_step_def
          NodeBodyLimitPlugin_patch_def request_emit_def patched_emit_def checkHeader_def)
  have one: "of_call 1 (fst (run_system (node_system_step \<lparr>maxBodySize = 3\<rparr>) example_steps
                    (node_system_start example_declared))) =
     [None, Some (Emitted (''data'', [5, 6])), Some (Emitted (''data'', [7]))]"
    by (simp add: example_steps_def example_declared_def of_call_def node_system_step_def
          node_system_start_def allocate_def patched_emit_def checkHeader_def Let_def)
  note local = body_limit_counter_call_local
    [of 0 "\<lparr>maxBodySize = 3\<rparr>" example_steps example_declared]
  have both: "of_call 0 (fst (run_system (node_system_step \<lparr>maxBodySize = 3\<rparr>) example_steps
                    (node_system_start example_declared))) =
     [None, Some (Emitted (''data'', [1, 2])), Some (Threw PAYLOAD_TOO_LARGE)]"
    using local [THEN conjunct2, THEN conjunct2, THEN conjunct1] run by simp
  have alone: "of_call 0 (fst (run_system (node_system_step \<lparr>maxBodySize = 3\<rparr>)
                    (steps_of_call 0 example_steps)
                    (node_system_start example_declared))) =
     [None, Some (Emitted (''data'', [1, 2])), Some (Threw PAYLOAD_TOO_LARGE)]"
    using local [THEN conjunct1] both by simp
  show ?thesis
    using both one alone by simp
qed

section \<open>Properties of the handlers\<close>






lemma intercept_preserves:
  assumes "\<And>options. P (main options)"
    and "\<And>i options next. i \<in> set is \<Longrightarrow> (\<And>options'. P (next options')) \<Longrightarrow> P (i options next)"
  shows "P (intercept is options main)"
  using assms
proof (induction "is" arbitrary: options)
  case Nil
  then show ?case by simp
next
  case (Cons i "is")
  show ?case
    by (simp, rule Cons.prems(2)) (simp_all add: Cons.IH Cons.prems)
qed


lemma FetchHandler_main_shape:
  "completes_with one_of_two_shapes (FetchHandler_main toFetchResponse sh options)"
  by (simp add: FetchHandler_main_def completes_with_def one_of_two_shapes_def
        split: sum.splits StandardHandleResult.splits)

lemma NodeHttpHandler_main_shape:
  "completes_with without_response (fst (NodeHttpHandler_main send sh options))"
  by (simp add: NodeHttpHandler_main_def completes_with_def without_response_def Let_def
        split: sum.splits StandardHandleResult.splits)





text \<open>
  C5, as amended. Let every adapter interceptor return a result of the shape of its
  adapter whenever \<open>next\<close> does. Then a completed call of \<open>FetchHandler.handle\<close>
  returns \<open>{matched: true, response}\<close> or \<open>{matched: false}\<close>, the response being
  there exactly when the result is matched; and a completed call of
  \<open>NodeHttpHandler.handle\<close> returns \<open>{matched: true}\<close> or \<open>{matched: false}\<close>,
  neither with a response.
\<close>

theorem handle_result_shapes:
  assumes "\<forall>i \<in> set fis. \<forall>options next.
             (\<forall>options'. completes_with one_of_two_shapes (next options'))
               \<longrightarrow> completes_with one_of_two_shapes (i options next)"
    and "\<forall>i \<in> set nis. \<forall>options next.
             (\<forall>options'. completes_with without_response (fst (next options')))
               \<longrightarrow> completes_with without_response (fst (i options next))"
  shows "completes_with one_of_two_shapes
           (FetchHandler_handle toFetchResponse
              \<lparr>standardHandler = shf, handler_adapterInterceptors = fis,
               handler_responseOptions = fo\<rparr> frequest frest)
         \<and> completes_with without_response
             (fst (NodeHttpHandler_handle send
                \<lparr>standardHandler = shn, handler_adapterInterceptors = nis,
                 handler_responseOptions = so\<rparr> nrequest res nrest))"
proof
  show "completes_with one_of_two_shapes
           (FetchHandler_handle toFetchResponse
              \<lparr>standardHandler = shf, handler_adapterInterceptors = fis,
               handler_responseOptions = fo\<rparr> frequest frest)"
    unfolding FetchHandler_handle_def Handler.simps
  proof (rule intercept_preserves [where P = "completes_with one_of_two_shapes"])
    show "completes_with one_of_two_shapes (FetchHandler_main toFetchResponse shf options)"
      for options
      by (rule FetchHandler_main_shape)
  next
    show "completes_with one_of_two_shapes (i options continue)"
      if "i \<in> set fis" and "\<And>options'. completes_with one_of_two_shapes (continue options')"
      for i options continue
      using assms(1) that by blast
  qed
next
  show "completes_with without_response
             (fst (NodeHttpHandler_handle send
                \<lparr>standardHandler = shn, handler_adapterInterceptors = nis,
                 handler_responseOptions = so\<rparr> nrequest res nrest))"
    unfolding NodeHttpHandler_handle_def Handler.simps
  proof (rule intercept_preserves [where P = "\<lambda>x. completes_with without_response (fst x)"])
    show "completes_with without_response (fst (NodeHttpHandler_main send shn options))"
      for options
      by (rule NodeHttpHandler_main_shape)
  next
    show "completes_with without_response (fst (i options continue))"
      if "i \<in> set nis" and "\<And>options'. completes_with without_response (fst (continue options'))"
      for i options continue
      using assms(2) that by blast
  qed
qed

theorem handle_result_shapes_witness:
  "FetchHandler_handle example_toFetchResponse
     \<lparr>standardHandler = example_standardHandler,
      handler_adapterInterceptors = [FetchBodyLimitPlugin_interceptor \<lparr>maxBodySize = 3\<rparr>],
      handler_responseOptions = ''opts''\<rparr> example_fetch_request ''/rpc''
     = Inr \<lparr>matched = True, response = Some ''pong''\<rparr>
   \<and> completes_with one_of_two_shapes
       (FetchHandler_handle example_toFetchResponse
          \<lparr>standardHandler = example_standardHandler,
           handler_adapterInterceptors = [FetchBodyLimitPlugin_interceptor \<lparr>maxBodySize = 3\<rparr>],
           handler_responseOptions = ''opts''\<rparr> example_fetch_request ''/rpc'')
   \<and> completes_with without_response
       (fst (NodeHttpHandler_handle example_sendStandardResponse
          \<lparr>standardHandler = example_standardHandler,
           handler_adapterInterceptors = [NodeBodyLimitPlugin_interceptor \<lparr>maxBodySize = 3\<rparr>],
           handler_responseOptions = ''keep-alive''\<rparr> example_request ''res'' ''/rpc'')
          :: error + unit HandleResult)"
proof -
  have f: "\<forall>i \<in> set [FetchBodyLimitPlugin_interceptor \<lparr>maxBodySize = 3\<rparr>]. \<forall>options continue.
             (\<forall>options'. completes_with one_of_two_shapes (continue options'))
               \<longrightarrow> completes_with one_of_two_shapes (i options continue)"
    by (simp add: FetchBodyLimitPlugin_interceptor_def split: option.splits)
  have n: "\<forall>i \<in> set [NodeBodyLimitPlugin_interceptor \<lparr>maxBodySize = 3\<rparr>]. \<forall>options continue.
             (\<forall>options'. completes_with without_response (fst (continue options')))
               \<longrightarrow> completes_with without_response (fst (i options continue))"
    by (simp add: NodeBodyLimitPlugin_interceptor_def)
  have v: "FetchHandler_handle example_toFetchResponse
     \<lparr>standardHandler = example_standardHandler,
      handler_adapterInterceptors = [FetchBodyLimitPlugin_interceptor \<lparr>maxBodySize = 3\<rparr>],
      handler_responseOptions = ''opts''\<rparr> example_fetch_request ''/rpc''
     = Inr \<lparr>matched = True, response = Some ''pong''\<rparr>"
    by (simp add: FetchHandler_handle_def FetchBodyLimitPlugin_interceptor_def
          example_fetch_request_def FetchHandler_main_def example_standardHandler_def
          example_toFetchResponse_def)
  have s: "completes_with one_of_two_shapes
       (FetchHandler_handle example_toFetchResponse
          \<lparr>standardHandler = example_standardHandler,
           handler_adapterInterceptors = [FetchBodyLimitPlugin_interceptor \<lparr>maxBodySize = 3\<rparr>],
           handler_responseOptions = ''opts''\<rparr> example_fetch_request ''/rpc'')
   \<and> completes_with without_response
       (fst (NodeHttpHandler_handle example_sendStandardResponse
          \<lparr>standardHandler = example_standardHandler,
           handler_adapterInterceptors = [NodeBodyLimitPlugin_interceptor \<lparr>maxBodySize = 3\<rparr>],
           handler_responseOptions = ''keep-alive''\<rparr> example_request ''res'' ''/rpc'')
          :: error + unit HandleResult)"
    by (rule handle_result_shapes [OF f n])
  show ?thesis
    using v s by simp
qed

text \<open>
  The claim C5 as it is written says that a matched result always carries the response.
  A matched call of \<open>NodeHttpHandler.handle\<close> returns \<open>{matched: true}\<close> alone: the
  response has gone to \<open>sendStandardResponse\<close>.
\<close>

theorem handle_result_shapes_counterexample:
  "NodeHttpHandler_handle example_sendStandardResponse
     (Handler_constructor example_standardHandler
        \<lparr>adapterInterceptors = None, responseOptions = ''keep-alive''\<rparr> None)
     example_request ''res'' ''/rpc''
     = (Inr \<lparr>matched = True, response = (None :: unit option)\<rparr>,
        [StandardHandlerHandle (node_toStandardLazyRequest example_request ''res'') ''/rpc'',
         SendStandardResponse ''res'' ''pong'' ''keep-alive''])"
  by (simp add: NodeHttpHandler_handle_def Handler_constructor_def CompositeHandlerPlugin_new_def
        NodeHttpHandler_main_def example_standardHandler_def example_sendStandardResponse_def)

end
